theory Spec2Isabelle
  imports Complex_Main "HOL-Library.Sublist"
begin

section \<open>Data model\<close>

text \<open>
  The consultation server of \<^verbatim>\<open>src/\<close>, embedded as pure functions. Mutable members
  (the rate-limit table, the history table, the response cache) are passed in and returned.
  Numbers of the source are IEEE doubles. Counters and millisecond timestamps are whole
  numbers in the source by construction and are \<^typ>\<open>int\<close> here. The two configured limits
  are whatever finite number the configuration holds (its loader accepts every number
  above 0, whole or not) and are \<^typ>\<open>real\<close> here. Token counts are \<^typ>\<open>int\<close>;
  sums of whole numbers are exact in doubles up to \<open>2 ^ 53 - 1\<close>. Strings are lists of
  \<^typ>\<open>char\<close>.
\<close>

datatype error =
    RateLimitError int      \<comment> \<open>\<^verbatim>\<open>RateLimitError(message, waitTimeSeconds)\<close>, the seconds kept\<close>
  | PlainError string       \<comment> \<open>\<^verbatim>\<open>new Error(message)\<close>\<close>
  | ApiError string         \<comment> \<open>what \<^verbatim>\<open>apiClient.consultAI\<close> rejects with, by its message\<close>
  | TypeError string        \<comment> \<open>raised by the runtime on a property read of \<^verbatim>\<open>undefined\<close>\<close>

record RateLimitEntry =
  count :: int
  resetTime :: int

type_synonym limit_map = "string \<rightharpoonup> RateLimitEntry"

datatype role = User | System | Assistant

record OpenRouterMessage =
  role :: role
  content :: string

type_synonym history_map = "string \<rightharpoonup> OpenRouterMessage list"

record ModelConfig =
  id' :: string
  description :: string
  bestFor :: "string list"

section \<open>RateLimiter (class \<^verbatim>\<open>RateLimiter\<close>, utils/RateLimiter.ts)\<close>

definition windowMs :: int where
  "windowMs = 60000"

text \<open>\<^verbatim>\<open>Math.ceil(a / b)\<close> on integers, for a positive divisor.\<close>

definition ceil_div :: "int \<Rightarrow> int \<Rightarrow> int" where
  "ceil_div a b = - ((- a) div b)"

text \<open>
  \<^verbatim>\<open>checkLimit(identifier)\<close>: the first argument is the constructor's
  \<^verbatim>\<open>requestsPerMinute\<close>, any number, which the count is only ever compared with; the
  second is what \<^verbatim>\<open>Date.now()\<close> returns. A thrown \<^verbatim>\<open>RateLimitError\<close> is
  \<open>Inl\<close>; the table is returned with the outcome.
\<close>

definition checkLimit ::
  "real \<Rightarrow> int \<Rightarrow> string \<Rightarrow> limit_map \<Rightarrow> (error + unit) \<times> limit_map" where
  "checkLimit requestsPerMinute now identifier limitMap =
     (case limitMap identifier of
        None \<Rightarrow>
          (Inr (), limitMap(identifier \<mapsto> \<lparr>count = 1, resetTime = now + windowMs\<rparr>))
      | Some entry \<Rightarrow>
          if now > resetTime entry then
            (Inr (), limitMap(identifier \<mapsto> \<lparr>count = 1, resetTime = now + windowMs\<rparr>))
          else if real_of_int (count entry) \<ge> requestsPerMinute then
            (let waitTimeMs = resetTime entry - now;
                 waitTimeSeconds = ceil_div waitTimeMs 1000
             in (Inl (RateLimitError waitTimeSeconds), limitMap))
          else
            (Inr (), limitMap(identifier \<mapsto> entry\<lparr>count := count entry + 1\<rparr>)))"

definition reset :: "string \<Rightarrow> limit_map \<Rightarrow> limit_map" where
  "reset identifier limitMap = limitMap(identifier := None)"

text \<open>Consecutive calls of \<open>checkLimit\<close> for one identifier, at the given clock readings.\<close>

fun checkSeq ::
  "real \<Rightarrow> string \<Rightarrow> int list \<Rightarrow> limit_map \<Rightarrow> (error + unit) list \<times> limit_map" where
  "checkSeq requestsPerMinute identifier [] limitMap = ([], limitMap)"
| "checkSeq requestsPerMinute identifier (now # nows) limitMap =
     (case checkLimit requestsPerMinute now identifier limitMap of
        (r, limitMap') \<Rightarrow>
          (case checkSeq requestsPerMinute identifier nows limitMap' of
             (rs, limitMap'') \<Rightarrow> (r # rs, limitMap'')))"

section \<open>HistoryManager (class \<^verbatim>\<open>HistoryManager\<close>, listed in infrastructure/Cache.ts)\<close>

text \<open>
  \<^verbatim>\<open>getHistory\<close> stores an empty array for an id it has not seen, and returns the
  stored array.
\<close>

definition getHistory :: "string \<Rightarrow> history_map \<Rightarrow> OpenRouterMessage list \<times> history_map" where
  "getHistory conversationId histories =
     (case histories conversationId of
        None \<Rightarrow> ([], histories(conversationId \<mapsto> []))
      | Some history \<Rightarrow> (history, histories))"

text \<open>
  \<^verbatim>\<open>Array.prototype.splice(0, n)\<close>: \<open>n\<close> is cut to a whole number towards zero, then
  clamped to the range from 0 to the length, and that many elements are removed from the
  front.
\<close>

definition splice_front :: "real \<Rightarrow> 'a list \<Rightarrow> 'a list" where
  "splice_front n xs = drop (nat \<lfloor>n\<rfloor>) xs"

text \<open>
  \<^verbatim>\<open>updateHistory\<close>; the first argument is the constructor's \<^verbatim>\<open>maxHistoryLength\<close>,
  any number. The subtraction is the only arithmetic on it; it is exact in the source
  whenever the maximum is a whole number (or any number whose difference from the length is
  representable, such as 2.5).
\<close>

definition updateHistory ::
  "real \<Rightarrow> string \<Rightarrow> OpenRouterMessage \<Rightarrow> OpenRouterMessage \<Rightarrow> history_map \<Rightarrow> history_map" where
  "updateHistory maxHistoryLength conversationId userMessage assistantMessage histories =
     (case getHistory conversationId histories of
        (history, histories') \<Rightarrow>
          (let pushed = history @ [userMessage, assistantMessage];
               pruned =
                 (if real (length pushed) > maxHistoryLength then
                    (let excess = real (length pushed) - maxHistoryLength
                     in splice_front excess pushed)
                  else pushed)
           in histories'(conversationId \<mapsto> pruned)))"

definition clearHistory :: "string \<Rightarrow> history_map \<Rightarrow> history_map" where
  "clearHistory conversationId histories = histories(conversationId := None)"

definition hasHistory :: "history_map \<Rightarrow> string \<Rightarrow> bool" where
  "hasHistory histories conversationId =
     (case histories conversationId of
        None \<Rightarrow> False
      | Some history \<Rightarrow> length history > 0)"

text \<open>
  Any sequence of calls on one manager, and the messages that \<open>updateHistory\<close> has been
  handed for a conversation, in call order.
\<close>

datatype history_call =
    GetHistory string
  | UpdateHistory string OpenRouterMessage OpenRouterMessage
  | ClearHistory string

fun history_step :: "real \<Rightarrow> history_map \<Rightarrow> history_call \<Rightarrow> history_map" where
  "history_step maxHistoryLength histories (GetHistory c) = snd (getHistory c histories)"
| "history_step maxHistoryLength histories (UpdateHistory c u a) =
     updateHistory maxHistoryLength c u a histories"
| "history_step maxHistoryLength histories (ClearHistory c) = clearHistory c histories"

definition history_run :: "real \<Rightarrow> history_call list \<Rightarrow> history_map" where
  "history_run maxHistoryLength calls = foldl (history_step maxHistoryLength) Map.empty calls"

fun appended :: "string \<Rightarrow> history_call list \<Rightarrow> OpenRouterMessage list" where
  "appended c [] = []"
| "appended c (UpdateHistory c' u a # calls) =
     (if c' = c then u # a # appended c calls else appended c calls)"
| "appended c (_ # calls) = appended c calls"

definition stored :: "history_map \<Rightarrow> string \<Rightarrow> OpenRouterMessage list" where
  "stored histories conversationId =
     (case histories conversationId of None \<Rightarrow> [] | Some history \<Rightarrow> history)"

text \<open>How many messages one \<open>updateHistory\<close> call removes from the front.\<close>

definition trimmed ::
  "real \<Rightarrow> string \<Rightarrow> OpenRouterMessage \<Rightarrow> OpenRouterMessage \<Rightarrow> history_map \<Rightarrow> nat" where
  "trimmed maxHistoryLength conversationId userMessage assistantMessage histories =
     length (stored histories conversationId) + 2 -
     length (stored (updateHistory maxHistoryLength conversationId userMessage assistantMessage
        histories) conversationId)"

section \<open>ModelSelector (class \<^verbatim>\<open>ModelSelector\<close>, services/ModelSelector.ts)\<close>

definition gemini_2_5_pro :: ModelConfig where
  "gemini_2_5_pro =
     \<lparr>id' = ''google/gemini-2.5-pro'',
      description = ''Google's Gemini 2.5 Pro with large context window'',
      bestFor = [''large context'', ''general purpose'', ''quick questions'']\<rparr>"

definition gpt_5_codex :: ModelConfig where
  "gpt_5_codex =
     \<lparr>id' = ''openai/gpt-5-codex'',
      description = ''OpenAI's GPT-5 Codex, optimized for coding tasks'',
      bestFor = [''coding'', ''complex tasks'', ''large context'', ''debugging'', ''refactoring'']\<rparr>"

definition grok_code_fast_1 :: ModelConfig where
  "grok_code_fast_1 =
     \<lparr>id' = ''x-ai/grok-code-fast-1'',
      description = ''xAI's Grok Code Fast 1, optimized for code-related tasks'',
      bestFor = [''complex reasoning'', ''code review'', ''detailed analysis'', ''budget'']\<rparr>"

definition AVAILABLE_MODELS :: "(string \<times> ModelConfig) list" where
  "AVAILABLE_MODELS =
     [(''gemini-2.5-pro'', gemini_2_5_pro),
      (''gpt-5-codex'', gpt_5_codex),
      (''grok-code-fast-1'', grok_code_fast_1)]"

text \<open>
  \<^verbatim>\<open>String.prototype.toLowerCase\<close> on the ASCII letters; every other \<^typ>\<open>char\<close> is
  kept. (The source lower-cases all of Unicode; the keywords are ASCII.)
\<close>

definition lower_char :: "char \<Rightarrow> char" where
  "lower_char c =
     (case map_of (zip ''ABCDEFGHIJKLMNOPQRSTUVWXYZ'' ''abcdefghijklmnopqrstuvwxyz'') c of
        Some d \<Rightarrow> d
      | None \<Rightarrow> c)"

definition toLowerCase :: "string \<Rightarrow> string" where
  "toLowerCase s = map lower_char s"

text \<open>\<^verbatim>\<open>description.includes(keyword)\<close>: the keyword occurs as a contiguous run.\<close>

fun includes_str :: "string \<Rightarrow> string \<Rightarrow> bool" where
  "includes_str [] keyword = (keyword = [])"
| "includes_str (c # cs) keyword = (prefix keyword (c # cs) \<or> includes_str cs keyword)"

definition codingKeywords :: "string list" where
  "codingKeywords =
     [''code'', ''coding'', ''typescript'', ''javascript'', ''python'', ''java'', ''refactor'',
      ''debug'', ''function'', ''class'', ''bug'', ''programming'', ''algorithm'']"

definition complexKeywords :: "string list" where
  "complexKeywords =
     [''complex'', ''architecture'', ''system design'', ''detailed analysis'', ''in-depth'',
      ''comprehensive'', ''thorough'']"

definition quickKeywords :: "string list" where
  "quickKeywords =
     [''quick'', ''simple'', ''explain'', ''what is'', ''how to'', ''large context'', ''summary'']"

definition budgetKeywords :: "string list" where
  "budgetKeywords = [''budget'', ''cost-effective'', ''cheap'', ''affordable'']"

definition isCodingTask :: "string \<Rightarrow> bool" where
  "isCodingTask description' = list_ex (includes_str description') codingKeywords"

definition isComplexAnalysisTask :: "string \<Rightarrow> bool" where
  "isComplexAnalysisTask description' = list_ex (includes_str description') complexKeywords"

definition isQuickQuestionTask :: "string \<Rightarrow> bool" where
  "isQuickQuestionTask description' = list_ex (includes_str description') quickKeywords"

definition isBudgetTask :: "string \<Rightarrow> bool" where
  "isBudgetTask description' = list_ex (includes_str description') budgetKeywords"

definition selectModel :: "string \<Rightarrow> ModelConfig" where
  "selectModel taskDescription =
     (let lowerDesc = toLowerCase taskDescription in
      if isCodingTask lowerDesc then gpt_5_codex
      else if isComplexAnalysisTask lowerDesc then grok_code_fast_1
      else if isQuickQuestionTask lowerDesc then gemini_2_5_pro
      else if isBudgetTask lowerDesc then grok_code_fast_1
      else gpt_5_codex)"

text \<open>
  \<^verbatim>\<open>getModelById\<close> is the property read \<^verbatim>\<open>this.models[modelId]\<close> on an object
  literal. Such a read also finds what the object inherits from \<^verbatim>\<open>Object.prototype\<close>;
  the names below are the properties of \<^verbatim>\<open>Object.prototype\<close> in the language
  standard, each of them a function or an object, hence truthy, and none with a property
  \<^verbatim>\<open>id\<close>.
\<close>

definition objectPrototypeKeys :: "string list" where
  "objectPrototypeKeys =
     [''constructor'', ''hasOwnProperty'', ''isPrototypeOf'', ''propertyIsEnumerable'',
      ''toLocaleString'', ''toString'', ''valueOf'', ''__proto__'', ''__defineGetter__'',
      ''__defineSetter__'', ''__lookupGetter__'', ''__lookupSetter__'']"

datatype property_read = Own ModelConfig | Inherited | Undefined

definition getModelById :: "string \<Rightarrow> property_read" where
  "getModelById modelId =
     (case map_of AVAILABLE_MODELS modelId of
        Some modelConfig \<Rightarrow> Own modelConfig
      | None \<Rightarrow> if modelId \<in> set objectPrototypeKeys then Inherited else Undefined)"

section \<open>ConsultationService (class \<^verbatim>\<open>ConsultationService\<close>, services/ConsultationService.ts)\<close>

record TokenUsage =
  prompt_tokens :: "int option"
  completion_tokens :: "int option"
  total_tokens :: "int option"

text \<open>
  A \<^verbatim>\<open>ConsultResult\<close> as it exists at run time: \<^verbatim>\<open>consultAI\<close> copies
  \<^verbatim>\<open>usage\<close> from the provider's response body, where it may be absent although the
  declared type requires it; an absent one is \<open>None\<close>.
\<close>

record ConsultResult =
  model :: string
  response :: string
  usage :: "TokenUsage option"

record ConsultArgs =
  prompt :: string
  model :: "string option"
  models :: "string list option"
  task_description :: "string option"
  conversation_id :: "string option"
  clear_history :: "bool option"

text \<open>An element of the \<^verbatim>\<open>results\<close> array of \<^verbatim>\<open>consultMultipleModels\<close>.\<close>

record ModelResult =
  model :: string
  response :: string
  usage :: "TokenUsage option"
  cached :: bool

text \<open>The two fields of \<^verbatim>\<open>Config\<close> that the modelled components read.\<close>

record Config =
  rateLimitPerMinute :: real
  maxConversationHistory :: real

text \<open>
  \<^verbatim>\<open>apiClient.consultAI(prompt, model, history)\<close> is the interface \<^verbatim>\<open>IApiClient\<close>
  to the upstream provider: any function of the call's arguments and of the number of calls
  made before it (so that two calls with equal arguments may differ). \<open>Inl m\<close> is a
  rejected promise, \<open>m\<close> being what
  \<^verbatim>\<open>error instanceof Error ? error.message : String(error)\<close> gives for the error.
  The model argument is \<open>None\<close> where the source passes \<^verbatim>\<open>undefined\<close>.
\<close>

type_synonym api_client =
  "nat \<Rightarrow> string \<Rightarrow> string option \<Rightarrow> OpenRouterMessage list \<Rightarrow> string + ConsultResult"

text \<open>
  The members of the service that change: the three injected stores, and two logs for
  what leaves the service, the \<^verbatim>\<open>consultAI\<close> calls made and the lines written with
  \<^verbatim>\<open>console.warn\<close>. (Diagnostics written with \<^verbatim>\<open>console.error\<close> are left out, and
  the cache holds the entries that have not expired.)
\<close>

record service =
  rateLimiter :: limit_map
  cache :: "string \<rightharpoonup> ConsultResult"
  historyManager :: history_map
  apiCalls :: "(string \<times> string option \<times> OpenRouterMessage list) list"
  warnings :: "string list"

text \<open>A string that may be \<^verbatim>\<open>undefined\<close>, where the source tests it for truthiness.\<close>

definition truthy :: "string option \<Rightarrow> string option" where
  "truthy s = (case s of None \<Rightarrow> None | Some v \<Rightarrow> if v = [] then None else Some v)"

text \<open>\<^verbatim>\<open>a || b\<close> on such a string; \<^verbatim>\<open>n || 0\<close> on an optional number.\<close>

definition or_else :: "string option \<Rightarrow> string \<Rightarrow> string" where
  "or_else a b = (case truthy a of None \<Rightarrow> b | Some v \<Rightarrow> v)"

definition or0 :: "int option \<Rightarrow> int" where
  "or0 n = (case n of None \<Rightarrow> 0 | Some v \<Rightarrow> v)"

text \<open>
  The message of the \<^verbatim>\<open>TypeError\<close> that reading a property of \<^verbatim>\<open>undefined\<close>
  raises, in the wording of Node.js.
\<close>

definition undefined_read :: "string \<Rightarrow> string" where
  "undefined_read property =
     ''Cannot read properties of undefined (reading '' @ [CHR 0x27] @ property @ [CHR 0x27] @ '')''"

text \<open>A model id inside a template literal: \<^verbatim>\<open>undefined\<close> prints as its name.\<close>

definition show_model :: "string option \<Rightarrow> string" where
  "show_model m = (case m of None \<Rightarrow> ''undefined'' | Some v \<Rightarrow> v)"

text \<open>Decimal digits of an integer, as a template literal prints a number.\<close>

function show_nat :: "nat \<Rightarrow> string" where
  "show_nat n =
     (if n < 10 then [''0123456789'' ! n]
      else show_nat (n div 10) @ [''0123456789'' ! (n mod 10)])"
  by pat_completeness auto
termination
  by (relation "measure id") auto

declare show_nat.simps [simp del]

definition show_int :: "int \<Rightarrow> string" where
  "show_int i = (if i < 0 then ''-'' @ show_nat (nat (- i)) else show_nat (nat i))"

text \<open>\<^verbatim>\<open>generateCacheKey\<close> (infrastructure/Cache.ts); \<^verbatim>\<open>substring(0, 100)\<close> is \<open>take 100\<close>.\<close>

definition generateCacheKey :: "string \<Rightarrow> string option \<Rightarrow> string" where
  "generateCacheKey prompt' model' =
     (let promptPrefix = take 100 prompt' in show_model model' @ '':'' @ promptPrefix)"

definition checkCache ::
  "string \<Rightarrow> string option \<Rightarrow> (string \<rightharpoonup> ConsultResult) \<Rightarrow> ConsultResult option" where
  "checkCache prompt' model' cache' = cache' (generateCacheKey prompt' model')"

definition cacheResult ::
  "string \<Rightarrow> string option \<Rightarrow> ConsultResult \<Rightarrow> (string \<rightharpoonup> ConsultResult) \<Rightarrow>
   (string \<rightharpoonup> ConsultResult)" where
  "cacheResult prompt' model' result cache' = cache'(generateCacheKey prompt' model' \<mapsto> result)"

text \<open>
  The private \<^verbatim>\<open>selectModel\<close> of the service: the selected provider id
  (\<open>None\<close> for \<^verbatim>\<open>undefined\<close>, the \<^verbatim>\<open>id\<close> of an inherited property), and the
  warnings written.
\<close>

definition service_selectModel ::
  "string option \<Rightarrow> string option \<Rightarrow> string \<Rightarrow> string option \<times> string list" where
  "service_selectModel explicitModel taskDescription prompt' =
     (let auto = Some (id' (selectModel (or_else taskDescription prompt'))) in
      case truthy explicitModel of
        None \<Rightarrow> (auto, [])
      | Some m \<Rightarrow>
          (case getModelById m of
             Own modelConfig \<Rightarrow> (Some (id' modelConfig), [])
           | Inherited \<Rightarrow> (None, [])
           | Undefined \<Rightarrow>
               (auto, [''Invalid model ID: '' @ m @ ''. Using auto-selection.''])))"

definition intercalate :: "string \<Rightarrow> string list \<Rightarrow> string" where
  "intercalate sep xs = (case xs of [] \<Rightarrow> [] | y # ys \<Rightarrow> y @ concat (map (\<lambda>z. sep @ z) ys))"

text \<open>
  \<^verbatim>\<open>combineResponses\<close>; \<open>index\<close> is the position of the first element given.
  Reading \<^verbatim>\<open>result.usage.total_tokens\<close> of an element without \<^verbatim>\<open>usage\<close> throws.
\<close>

fun combineSections :: "nat \<Rightarrow> ModelResult list \<Rightarrow> error + string" where
  "combineSections index [] = Inr []"
| "combineSections index (result # results) =
     (case ModelResult.usage result of
        None \<Rightarrow> Inl (TypeError (undefined_read ''total_tokens''))
      | Some u \<Rightarrow>
          (case combineSections (index + 1) results of
             Inl e \<Rightarrow> Inl e
           | Inr rest \<Rightarrow>
               Inr (''## Model '' @ show_nat (index + 1) @ '': '' @ ModelResult.model result
                      @ (if cached result then '' (cached)'' else []) @ ''\<newline>\<newline>''
                    @ ModelResult.response result @ ''\<newline>\<newline>''
                    @ ''**Tokens used:** '' @ show_int (or0 (total_tokens u)) @ ''\<newline>\<newline>''
                    @ ''---\<newline>\<newline>''
                    @ rest)))"

definition combineResponses :: "ModelResult list \<Rightarrow> error + string" where
  "combineResponses results =
     (case combineSections 0 results of
        Inl e \<Rightarrow> Inl e
      | Inr sections \<Rightarrow> Inr (''# Multi-Model Consultation Results\<newline>\<newline>'' @ sections))"

text \<open>
  One turn of the loop of \<^verbatim>\<open>consultMultipleModels\<close>, its \<^verbatim>\<open>try\<close> and its
  \<^verbatim>\<open>catch\<close>. The accumulator is the \<^verbatim>\<open>results\<close> array, the three running
  totals and the service.

  \<open>errorEntry\<close> is what the \<^verbatim>\<open>catch\<close> pushes. \<open>collectResult\<close> is the end of the
  \<^verbatim>\<open>try\<close>: the result is pushed, then its usage is added to the totals; for a result
  without \<^verbatim>\<open>usage\<close> the first of these reads throws, after the push, and the
  \<^verbatim>\<open>catch\<close> pushes a second element for the same model.
\<close>

type_synonym batch = "ModelResult list \<times> int \<times> int \<times> int \<times> service"

definition errorEntry :: "string \<Rightarrow> string \<Rightarrow> ModelResult" where
  "errorEntry modelId message =
     \<lparr>ModelResult.model = modelId,
      ModelResult.response = ''Error: '' @ message,
      ModelResult.usage =
        Some \<lparr>prompt_tokens = Some 0, completion_tokens = Some 0, total_tokens = Some 0\<rparr>,
      cached = False\<rparr>"

definition collectResult ::
  "string \<Rightarrow> ConsultResult \<Rightarrow> bool \<Rightarrow> batch \<Rightarrow> batch" where
  "collectResult modelId result isCached acc =
     (case acc of (results, totalPromptTokens, totalCompletionTokens, totalTokens, s) \<Rightarrow>
      let pushed = results @ [\<lparr>ModelResult.model = modelId,
                                ModelResult.response = ConsultResult.response result,
                                ModelResult.usage = ConsultResult.usage result,
                                cached = isCached\<rparr>]
      in
      case ConsultResult.usage result of
        Some u \<Rightarrow>
          (pushed,
           totalPromptTokens + or0 (prompt_tokens u),
           totalCompletionTokens + or0 (completion_tokens u),
           totalTokens + or0 (total_tokens u),
           s)
      | None \<Rightarrow>
          (pushed @ [errorEntry modelId (undefined_read ''prompt_tokens'')],
           totalPromptTokens, totalCompletionTokens, totalTokens, s))"

definition consultOne ::
  "api_client \<Rightarrow> string \<Rightarrow> string option \<Rightarrow> batch \<Rightarrow> string \<Rightarrow> batch" where
  "consultOne apiClient prompt' conversationId acc modelId =
     (case acc of (results, totalPromptTokens, totalCompletionTokens, totalTokens, s) \<Rightarrow>
      let selectedModel =
            (case getModelById modelId of
               Own modelConfig \<Rightarrow> Some (id' modelConfig)
             | Inherited \<Rightarrow> None
             | Undefined \<Rightarrow> Some modelId);
          got =
            (case conversationId of
               Some c \<Rightarrow> getHistory c (historyManager s)
             | None \<Rightarrow> ([], historyManager s));
          history = fst got;
          s1 = s\<lparr>historyManager := snd got\<rparr>;
          cachedResult =
            (case conversationId of
               None \<Rightarrow> checkCache prompt' selectedModel (cache s1)
             | Some c \<Rightarrow> None)
      in
      case cachedResult of
        Some result \<Rightarrow>
          collectResult modelId result True
            (results, totalPromptTokens, totalCompletionTokens, totalTokens, s1)
      | None \<Rightarrow>
          (let s2 = s1\<lparr>apiCalls := apiCalls s1 @ [(prompt', selectedModel, history)]\<rparr> in
           case apiClient (length (apiCalls s1)) prompt' selectedModel history of
             Inr result \<Rightarrow>
               (let s3 =
                      (case conversationId of
                         None \<Rightarrow> s2\<lparr>cache := cacheResult prompt' selectedModel result (cache s2)\<rparr>
                       | Some c \<Rightarrow> s2)
                in
                collectResult modelId result False
                  (results, totalPromptTokens, totalCompletionTokens, totalTokens, s3))
           | Inl message \<Rightarrow>
               (results @ [errorEntry modelId message],
                totalPromptTokens, totalCompletionTokens, totalTokens, s2)))"

definition consultLoop ::
  "api_client \<Rightarrow> string \<Rightarrow> string option \<Rightarrow> string list \<Rightarrow> service \<Rightarrow> batch" where
  "consultLoop apiClient prompt' conversationId modelIds s =
     foldl (consultOne apiClient prompt' conversationId) ([], 0, 0, 0, s) modelIds"

text \<open>
  \<^verbatim>\<open>consultMultipleModels\<close>. \<open>now\<close> is the clock that \<open>checkLimit\<close> reads. A thrown
  error is \<open>Inl\<close>, and the service is returned as the throw leaves it;
  \<^verbatim>\<open>combineResponses\<close> is called outside the \<^verbatim>\<open>try\<close>, so what it throws leaves
  the method.
\<close>

definition consultMultipleModels ::
  "Config \<Rightarrow> api_client \<Rightarrow> int \<Rightarrow> ConsultArgs \<Rightarrow> service \<Rightarrow> (error + ConsultResult) \<times> service" where
  "consultMultipleModels config apiClient now args s =
     (case models args of
        None \<Rightarrow> (Inl (PlainError ''No models specified for multi-model consultation''), s)
      | Some [] \<Rightarrow> (Inl (PlainError ''No models specified for multi-model consultation''), s)
      | Some (m # ms) \<Rightarrow>
          (let rateLimitId = or_else (conversation_id args) ''global'' in
           case checkLimit (rateLimitPerMinute config) now rateLimitId (rateLimiter s) of
             (Inl e, limits) \<Rightarrow> (Inl e, s\<lparr>rateLimiter := limits\<rparr>)
           | (Inr _, limits) \<Rightarrow>
               (let s1 = s\<lparr>rateLimiter := limits\<rparr>;
                    s2 =
                      (case truthy (conversation_id args) of
                         Some c \<Rightarrow>
                           if clear_history args = Some True
                           then s1\<lparr>historyManager := clearHistory c (historyManager s1)\<rparr>
                           else s1
                       | None \<Rightarrow> s1)
                in
                case consultLoop apiClient (prompt args) (truthy (conversation_id args))
                       (m # ms) s2 of
                  (results, totalPromptTokens, totalCompletionTokens, totalTokens, s3) \<Rightarrow>
                    (case combineResponses results of
                       Inl e \<Rightarrow> (Inl e, s3)
                     | Inr combinedResponse \<Rightarrow>
                         (let s4 =
                                (case truthy (conversation_id args) of
                                   Some c \<Rightarrow>
                                     s3\<lparr>historyManager :=
                                          updateHistory (maxConversationHistory config) c
                                            \<lparr>role = User, content = prompt args\<rparr>
                                            \<lparr>role = Assistant, content = combinedResponse\<rparr>
                                            (historyManager s3)\<rparr>
                                 | None \<Rightarrow> s3)
                          in
                          (Inr \<lparr>ConsultResult.model =
                                  ''Multi-model: '' @ intercalate '', '' (m # ms),
                                ConsultResult.response = combinedResponse,
                                ConsultResult.usage =
                                  Some \<lparr>prompt_tokens = Some totalPromptTokens,
                                        completion_tokens = Some totalCompletionTokens,
                                        total_tokens = Some totalTokens\<rparr>\<rparr>,
                           s4))))))"

text \<open>\<^verbatim>\<open>consult\<close>: the single-model path is the body after the dispatch.\<close>

definition consultSingle ::
  "Config \<Rightarrow> api_client \<Rightarrow> int \<Rightarrow> ConsultArgs \<Rightarrow> service \<Rightarrow> (error + ConsultResult) \<times> service" where
  "consultSingle config apiClient now args s =
     (let rateLimitId = or_else (conversation_id args) ''global'' in
      case checkLimit (rateLimitPerMinute config) now rateLimitId (rateLimiter s) of
        (Inl e, limits) \<Rightarrow> (Inl e, s\<lparr>rateLimiter := limits\<rparr>)
      | (Inr _, limits) \<Rightarrow>
          (let s1 = s\<lparr>rateLimiter := limits\<rparr>;
               s2 =
                 (case truthy (conversation_id args) of
                    Some c \<Rightarrow>
                      if clear_history args = Some True
                      then s1\<lparr>historyManager := clearHistory c (historyManager s1)\<rparr>
                      else s1
                  | None \<Rightarrow> s1);
               selected =
                 service_selectModel (ConsultArgs.model args) (task_description args) (prompt args);
               selectedModel = fst selected;
               s3 = s2\<lparr>warnings := warnings s2 @ snd selected\<rparr>;
               cachedResult =
                 (case truthy (conversation_id args) of
                    None \<Rightarrow> checkCache (prompt args) selectedModel (cache s3)
                  | Some c \<Rightarrow> None)
           in
           case cachedResult of
             Some result \<Rightarrow>
               (Inr (result\<lparr>ConsultResult.model := show_model selectedModel @ '' (cached)''\<rparr>), s3)
           | None \<Rightarrow>
               (let got =
                      (case truthy (conversation_id args) of
                         Some c \<Rightarrow> getHistory c (historyManager s3)
                       | None \<Rightarrow> ([], historyManager s3));
                    history = fst got;
                    s4 = s3\<lparr>historyManager := snd got\<rparr>;
                    s5 = s4\<lparr>apiCalls := apiCalls s4 @ [(prompt args, selectedModel, history)]\<rparr>
                in
                case apiClient (length (apiCalls s4)) (prompt args) selectedModel history of
                  Inl message \<Rightarrow> (Inl (ApiError message), s5)
                | Inr result \<Rightarrow>
                    (case truthy (conversation_id args) of
                       Some c \<Rightarrow>
                         (Inr result,
                          s5\<lparr>historyManager :=
                               updateHistory (maxConversationHistory config) c
                                 \<lparr>role = User, content = prompt args\<rparr>
                                 \<lparr>role = Assistant, content = ConsultResult.response result\<rparr>
                                 (historyManager s5)\<rparr>)
                     | None \<Rightarrow>
                         (Inr result,
                          s5\<lparr>cache := cacheResult (prompt args) selectedModel result (cache s5)\<rparr>)))))"

definition consult ::
  "Config \<Rightarrow> api_client \<Rightarrow> int \<Rightarrow> ConsultArgs \<Rightarrow> service \<Rightarrow> (error + ConsultResult) \<times> service" where
  "consult config apiClient now args s =
     (case models args of
        Some (m # ms) \<Rightarrow> consultMultipleModels config apiClient now args s
      | _ \<Rightarrow> consultSingle config apiClient now args s)"

section \<open>ToolHandler (class \<^verbatim>\<open>ToolHandler\<close>, mcp/handlers/ToolHandler.ts)\<close>

record ConsultResponse =
  model_used :: string
  response :: string
  tokens_used :: "TokenUsage option"
  conversation_id :: "string option"
  cached :: bool

text \<open>
  \<^verbatim>\<open>handleConsultAI\<close>, up to the \<^verbatim>\<open>ConsultResponse\<close> it serialises; the cache-hit
  flag of a response is computed here, from the model label.
\<close>

definition handleConsultAI ::
  "Config \<Rightarrow> api_client \<Rightarrow> int \<Rightarrow> ConsultArgs \<Rightarrow> service \<Rightarrow> (error + ConsultResponse) \<times> service" where
  "handleConsultAI config apiClient now args s =
     (if prompt args = [] then (Inl (PlainError ''prompt is required''), s)
      else
        case consult config apiClient now args s of
          (Inl e, s') \<Rightarrow> (Inl e, s')
        | (Inr result, s') \<Rightarrow>
            (Inr \<lparr>model_used = ConsultResult.model result,
                  ConsultResponse.response = ConsultResult.response result,
                  tokens_used = ConsultResult.usage result,
                  ConsultResponse.conversation_id = truthy (ConsultArgs.conversation_id args),
                  ConsultResponse.cached = includes_str (ConsultResult.model result) ''(cached)''\<rparr>,
             s'))"

section \<open>A batch, as the specification words it\<close>











section \<open>Example inputs\<close>

text \<open>
  The defaults of \<^verbatim>\<open>Config\<close>, the service as \<^verbatim>\<open>index.ts\<close> constructs it, a
  request with a prompt only, and three upstream clients: one that answers every call, one
  whose second call is rejected, one whose answers carry no \<^verbatim>\<open>usage\<close>.
\<close>

definition defaultConfig :: Config where
  "defaultConfig = \<lparr>rateLimitPerMinute = 20, maxConversationHistory = 20\<rparr>"

definition newService :: service where
  "newService =
     \<lparr>rateLimiter = Map.empty, cache = Map.empty, historyManager = Map.empty,
      apiCalls = [], warnings = []\<rparr>"

definition request :: "string \<Rightarrow> ConsultArgs" where
  "request p =
     \<lparr>prompt = p, ConsultArgs.model = None, models = None, task_description = None,
      ConsultArgs.conversation_id = None, clear_history = None\<rparr>"

definition answer :: "string option \<Rightarrow> ConsultResult" where
  "answer m =
     \<lparr>ConsultResult.model = show_model m, ConsultResult.response = ''ok'',
      ConsultResult.usage =
        Some \<lparr>prompt_tokens = Some 5, completion_tokens = Some 7, total_tokens = None\<rparr>\<rparr>"

definition answeringClient :: api_client where
  "answeringClient n p m h = Inr (answer m)"

definition secondCallFails :: api_client where
  "secondCallFails n p m h = (if n = 1 then Inl ''API error: boom'' else Inr (answer m))"


section \<open>RateLimiter: proofs\<close>

lemma ceil_div_real: "ceil_div a 1000 = \<lceil>real_of_int a / 1000\<rceil>"
  unfolding ceil_div_def
  using ceiling_divide_eq_div[where ?'a = real, of a 1000] by simp

lemma ceil_div_nonneg: "0 \<le> a \<Longrightarrow> 0 \<le> ceil_div a 1000"
  unfolding ceil_div_def by (simp add: div_le_mono)

lemma ceil_div_pos_iff: "0 < ceil_div a 1000 \<longleftrightarrow> 0 < a"
  unfolding ceil_div_def by linarith

lemma checkLimit_fresh:
  "limitMap i = None \<or> (\<exists>e. limitMap i = Some e \<and> resetTime e < now) \<Longrightarrow>
   checkLimit rpm now i limitMap =
     (Inr (), limitMap(i \<mapsto> \<lparr>count = 1, resetTime = now + windowMs\<rparr>))"
  by (auto simp: checkLimit_def)

lemma checkLimit_exceeded:
  "limitMap i = Some e \<Longrightarrow> now \<le> resetTime e \<Longrightarrow> rpm \<le> real_of_int (count e) \<Longrightarrow>
   checkLimit rpm now i limitMap =
     (Inl (RateLimitError (ceil_div (resetTime e - now) 1000)), limitMap)"
  by (simp add: checkLimit_def Let_def)

lemma checkLimit_increment:
  "limitMap i = Some e \<Longrightarrow> now \<le> resetTime e \<Longrightarrow> real_of_int (count e) < rpm \<Longrightarrow>
   checkLimit rpm now i limitMap = (Inr (), limitMap(i \<mapsto> e\<lparr>count := count e + 1\<rparr>))"
  by (simp add: checkLimit_def)

lemma checkSeq_length: "length (fst (checkSeq rpm i ts m)) = length ts"
  by (induction ts arbitrary: m) (simp_all add: split_beta)

lemma checkSeq_in_window:
  "m i = Some e \<Longrightarrow> \<forall>t\<in>set ts. t \<le> resetTime e \<Longrightarrow> k < length ts \<Longrightarrow>
   fst (checkSeq rpm i ts m) ! k =
     (if count e + int k < \<lceil>rpm\<rceil> then Inr ()
      else Inl (RateLimitError (ceil_div (resetTime e - ts ! k) 1000)))"
proof (induction ts arbitrary: m e k)
  case Nil
  then show ?case by simp
next
  case (Cons t ts)
  have t: "t \<le> resetTime e" using Cons.prems(2) by simp
  show ?case
  proof (cases "count e < \<lceil>rpm\<rceil>")
    case True
    let ?e' = "e\<lparr>count := count e + 1\<rparr>"
    have below: "real_of_int (count e) < rpm" using True by (simp add: less_ceiling_iff)
    have step: "checkLimit rpm t i m = (Inr (), m(i \<mapsto> ?e'))"
      using Cons.prems(1) t below by (rule checkLimit_increment)
    show ?thesis
    proof (cases k)
      case 0
      then show ?thesis using step True by (simp add: split_beta)
    next
      case (Suc j)
      have "fst (checkSeq rpm i ts (m(i \<mapsto> ?e'))) ! j =
        (if count ?e' + int j < \<lceil>rpm\<rceil> then Inr ()
         else Inl (RateLimitError (ceil_div (resetTime ?e' - ts ! j) 1000)))"
        using Cons.prems Suc by (intro Cons.IH) auto
      then show ?thesis using step Suc by (simp add: split_beta algebra_simps)
    qed
  next
    case False
    have step: "checkLimit rpm t i m =
      (Inl (RateLimitError (ceil_div (resetTime e - t) 1000)), m)"
      using Cons.prems(1) t False by (intro checkLimit_exceeded) (auto simp: less_ceiling_iff)
    show ?thesis
    proof (cases k)
      case 0
      then show ?thesis using step False by (simp add: split_beta)
    next
      case (Suc j)
      have "fst (checkSeq rpm i ts m) ! j =
        (if count e + int j < \<lceil>rpm\<rceil> then Inr ()
         else Inl (RateLimitError (ceil_div (resetTime e - ts ! j) 1000)))"
        using Cons.prems Suc by (intro Cons.IH) auto
      then show ?thesis using step Suc False by (simp add: split_beta)
    qed
  qed
qed

lemma checkSeq_final:
  "m i = Some e \<Longrightarrow> \<forall>t\<in>set ts. t \<le> resetTime e \<Longrightarrow>
   snd (checkSeq rpm i ts m) =
     m(i \<mapsto> e\<lparr>count := max (count e) (min (count e + int (length ts)) \<lceil>rpm\<rceil>)\<rparr>)"
proof (induction ts arbitrary: m e)
  case Nil
  then show ?case by (auto simp: fun_eq_iff)
next
  case (Cons t ts)
  have t: "t \<le> resetTime e" using Cons.prems(2) by simp
  show ?case
  proof (cases "count e < \<lceil>rpm\<rceil>")
    case True
    let ?e' = "e\<lparr>count := count e + 1\<rparr>"
    have below: "real_of_int (count e) < rpm" using True by (simp add: less_ceiling_iff)
    have step: "checkLimit rpm t i m = (Inr (), m(i \<mapsto> ?e'))"
      using Cons.prems(1) t below by (rule checkLimit_increment)
    have "snd (checkSeq rpm i ts (m(i \<mapsto> ?e'))) =
      (m(i \<mapsto> ?e'))(i \<mapsto> ?e'\<lparr>count := max (count ?e') (min (count ?e' + int (length ts)) \<lceil>rpm\<rceil>)\<rparr>)"
      using Cons.prems by (intro Cons.IH) auto
    moreover have "max (count e + 1) (min (count e + 1 + int (length ts)) \<lceil>rpm\<rceil>) =
       max (count e) (min (count e + int (length (t # ts))) \<lceil>rpm\<rceil>)"
      using True by auto
    ultimately show ?thesis using step by (simp add: split_beta)
  next
    case False
    have step: "checkLimit rpm t i m =
      (Inl (RateLimitError (ceil_div (resetTime e - t) 1000)), m)"
      using Cons.prems(1) t False by (intro checkLimit_exceeded) (auto simp: less_ceiling_iff)
    have "snd (checkSeq rpm i ts m) =
      m(i \<mapsto> e\<lparr>count := max (count e) (min (count e + int (length ts)) \<lceil>rpm\<rceil>)\<rparr>)"
      using Cons.prems by (intro Cons.IH) auto
    moreover have "max (count e) (min (count e + int (length ts)) \<lceil>rpm\<rceil>) =
       max (count e) (min (count e + int (length (t # ts))) \<lceil>rpm\<rceil>)"
      using False by auto
    ultimately show ?thesis using step by (simp add: split_beta)
  qed
qed

text \<open>
  A run of checks that starts a window at \<open>t0\<close> and stays inside it: the outcome of
  each check, and the window left behind.
\<close>

lemma checkSeq_from_fresh:
  assumes fresh: "limitMap i = None \<or> (\<exists>e. limitMap i = Some e \<and> resetTime e < t0)"
    and inside: "\<forall>t\<in>set ts. t \<le> t0 + windowMs"
    and rpm: "0 < rpm"
  shows "\<forall>k<Suc (length ts).
           fst (checkSeq rpm i (t0 # ts) limitMap) ! k =
             (if int (Suc k) \<le> \<lceil>rpm\<rceil> then Inr ()
              else Inl (RateLimitError (ceil_div (t0 + windowMs - (t0 # ts) ! k) 1000)))"
    and "snd (checkSeq rpm i (t0 # ts) limitMap) i =
           Some \<lparr>count = min (1 + int (length ts)) \<lceil>rpm\<rceil>, resetTime = t0 + windowMs\<rparr>"
proof -
  let ?e = "\<lparr>count = 1, resetTime = t0 + windowMs\<rparr>"
  let ?m = "limitMap(i \<mapsto> ?e)"
  have first: "checkLimit rpm t0 i limitMap = (Inr (), ?m)"
    using fresh by (rule checkLimit_fresh)
  have one: "1 \<le> \<lceil>rpm\<rceil>" using rpm by (simp add: le_ceiling_iff)
  have me: "?m i = Some ?e" by simp
  have inside': "\<forall>t\<in>set ts. t \<le> resetTime ?e" using inside by simp
  show "\<forall>k<Suc (length ts).
           fst (checkSeq rpm i (t0 # ts) limitMap) ! k =
             (if int (Suc k) \<le> \<lceil>rpm\<rceil> then Inr ()
              else Inl (RateLimitError (ceil_div (t0 + windowMs - (t0 # ts) ! k) 1000)))"
  proof (intro allI impI)
    fix k assume k: "k < Suc (length ts)"
    show "fst (checkSeq rpm i (t0 # ts) limitMap) ! k =
             (if int (Suc k) \<le> \<lceil>rpm\<rceil> then Inr ()
              else Inl (RateLimitError (ceil_div (t0 + windowMs - (t0 # ts) ! k) 1000)))"
    proof (cases k)
      case 0
      then show ?thesis using first one by (simp add: split_beta)
    next
      case (Suc j)
      then have j: "j < length ts" using k by simp
      have "fst (checkSeq rpm i ts ?m) ! j =
        (if count ?e + int j < \<lceil>rpm\<rceil> then Inr ()
         else Inl (RateLimitError (ceil_div (resetTime ?e - ts ! j) 1000)))"
        using me inside' j by (rule checkSeq_in_window)
      then show ?thesis using first Suc by (simp add: split_beta)
    qed
  qed
  have "snd (checkSeq rpm i ts ?m) =
     ?m(i \<mapsto> ?e\<lparr>count := max (count ?e) (min (count ?e + int (length ts)) \<lceil>rpm\<rceil>)\<rparr>)"
    using me inside' by (rule checkSeq_final)
  moreover have "max 1 (min (1 + int (length ts)) \<lceil>rpm\<rceil>) = min (1 + int (length ts)) \<lceil>rpm\<rceil>"
    using one by auto
  ultimately show "snd (checkSeq rpm i (t0 # ts) limitMap) i =
           Some \<lparr>count = min (1 + int (length ts)) \<lceil>rpm\<rceil>, resetTime = t0 + windowMs\<rparr>"
    using first by (simp add: split_beta)
qed

lemma list_all_nth_iff: "list_all P xs \<longleftrightarrow> (\<forall>k<length xs. P (xs ! k))"
  by (simp add: list_all_length)

text \<open>
  C1 (as the code has it). A check starts a fresh window with count 1 and succeeds when the
  identifier has no window or the clock is strictly past the window's reset time. Otherwise
  (also when the clock equals the reset time) a count at or above the ceiling fails with a
  \<open>RateLimitError\<close> whose seconds are the ceiling of the remaining milliseconds over 1000,
  never negative and positive exactly when the clock is before the reset time; a count
  below the ceiling is incremented and the call succeeds. With a configured ceiling above
  0, of N consecutive checks in a window that the first one starts, the k-th succeeds iff
  k is at most the ceiling rounded up to a whole number, and every later one fails with the
  seconds left in that window; so all N succeed iff N is at most the rounded-up ceiling,
  which for a whole-number ceiling is N \<open>\<le>\<close> ceiling; and the first check strictly after
  the window's reset time starts again at count 1.
\<close>

theorem checkLimit_window:
  "(limitMap i = None \<or> (\<exists>e. limitMap i = Some e \<and> resetTime e < now) \<longrightarrow>
      checkLimit rpm now i limitMap =
        (Inr (), limitMap(i \<mapsto> \<lparr>count = 1, resetTime = now + windowMs\<rparr>)))
   \<and> (\<forall>e. limitMap i = Some e \<and> now \<le> resetTime e \<and> rpm \<le> real_of_int (count e) \<longrightarrow>
        checkLimit rpm now i limitMap =
          (Inl (RateLimitError \<lceil>real_of_int (resetTime e - now) / 1000\<rceil>), limitMap)
        \<and> 0 \<le> \<lceil>real_of_int (resetTime e - now) / 1000\<rceil>
        \<and> (0 < \<lceil>real_of_int (resetTime e - now) / 1000\<rceil> \<longleftrightarrow> now < resetTime e))
   \<and> (\<forall>e. limitMap i = Some e \<and> now \<le> resetTime e \<and> real_of_int (count e) < rpm \<longrightarrow>
        checkLimit rpm now i limitMap =
          (Inr (), limitMap(i \<mapsto> e\<lparr>count := count e + 1\<rparr>)))
   \<and> (0 < rpm \<and> (limitMap i = None \<or> (\<exists>e. limitMap i = Some e \<and> resetTime e < t0))
        \<and> (\<forall>t\<in>set ts. t \<le> t0 + windowMs) \<longrightarrow>
        (\<forall>k<Suc (length ts).
            (fst (checkSeq rpm i (t0 # ts) limitMap) ! k = Inr ()) = (int (Suc k) \<le> \<lceil>rpm\<rceil>))
        \<and> (\<forall>k<Suc (length ts). \<lceil>rpm\<rceil> < int (Suc k) \<longrightarrow>
            fst (checkSeq rpm i (t0 # ts) limitMap) ! k =
              Inl (RateLimitError \<lceil>real_of_int (t0 + windowMs - (t0 # ts) ! k) / 1000\<rceil>))
        \<and> (list_all (\<lambda>r. r = Inr ()) (fst (checkSeq rpm i (t0 # ts) limitMap))
              = (int (Suc (length ts)) \<le> \<lceil>rpm\<rceil>))
        \<and> (\<forall>z. rpm = real_of_int z \<longrightarrow>
              list_all (\<lambda>r. r = Inr ()) (fst (checkSeq rpm i (t0 # ts) limitMap))
                = (int (Suc (length ts)) \<le> z))
        \<and> snd (checkSeq rpm i (t0 # ts) limitMap) i =
             Some \<lparr>count = min (1 + int (length ts)) \<lceil>rpm\<rceil>, resetTime = t0 + windowMs\<rparr>
        \<and> (\<forall>t'>t0 + windowMs.
             checkLimit rpm t' i (snd (checkSeq rpm i (t0 # ts) limitMap)) =
               (Inr (), (snd (checkSeq rpm i (t0 # ts) limitMap))
                  (i \<mapsto> \<lparr>count = 1, resetTime = t' + windowMs\<rparr>))))"
proof -
  have all_ok: "list_all (\<lambda>r. r = Inr ()) (fst (checkSeq rpm i (t0 # ts) limitMap))
              = (int (Suc (length ts)) \<le> \<lceil>rpm\<rceil>)"
    if h: "0 < rpm \<and> (limitMap i = None \<or> (\<exists>e. limitMap i = Some e \<and> resetTime e < t0))
        \<and> (\<forall>t\<in>set ts. t \<le> t0 + windowMs)"
  proof -
    have each: "\<forall>k<Suc (length ts).
        (fst (checkSeq rpm i (t0 # ts) limitMap) ! k = Inr ()) = (int (Suc k) \<le> \<lceil>rpm\<rceil>)"
      using checkSeq_from_fresh(1)[of limitMap i t0 ts rpm] h by simp
    have len: "length (fst (checkSeq rpm i (t0 # ts) limitMap)) = Suc (length ts)"
      using checkSeq_length[of rpm i "t0 # ts" limitMap] by simp
    show ?thesis
    proof
      assume "list_all (\<lambda>r. r = Inr ()) (fst (checkSeq rpm i (t0 # ts) limitMap))"
      then have "fst (checkSeq rpm i (t0 # ts) limitMap) ! length ts = Inr ()"
        using len by (simp add: list_all_nth_iff)
      then show "int (Suc (length ts)) \<le> \<lceil>rpm\<rceil>" using each by simp
    next
      assume le: "int (Suc (length ts)) \<le> \<lceil>rpm\<rceil>"
      have "\<forall>k<Suc (length ts). fst (checkSeq rpm i (t0 # ts) limitMap) ! k = Inr ()"
      proof (intro allI impI)
        fix k assume k: "k < Suc (length ts)"
        then have "int (Suc k) \<le> \<lceil>rpm\<rceil>" using le by linarith
        then show "fst (checkSeq rpm i (t0 # ts) limitMap) ! k = Inr ()" using each k by simp
      qed
      then show "list_all (\<lambda>r. r = Inr ()) (fst (checkSeq rpm i (t0 # ts) limitMap))"
        using len by (simp add: list_all_nth_iff)
    qed
  qed
  show ?thesis
  proof (intro conjI allI impI)
    assume "limitMap i = None \<or> (\<exists>e. limitMap i = Some e \<and> resetTime e < now)"
    then show "checkLimit rpm now i limitMap =
          (Inr (), limitMap(i \<mapsto> \<lparr>count = 1, resetTime = now + windowMs\<rparr>))"
      by (rule checkLimit_fresh)
  next
    fix e assume "limitMap i = Some e \<and> now \<le> resetTime e \<and> rpm \<le> real_of_int (count e)"
    then show "checkLimit rpm now i limitMap =
            (Inl (RateLimitError \<lceil>real_of_int (resetTime e - now) / 1000\<rceil>), limitMap)"
      using checkLimit_exceeded[of limitMap i e now rpm] by (simp add: ceil_div_real)
  next
    fix e assume "limitMap i = Some e \<and> now \<le> resetTime e \<and> rpm \<le> real_of_int (count e)"
    then show "0 \<le> \<lceil>real_of_int (resetTime e - now) / 1000\<rceil>"
      using ceil_div_nonneg[of "resetTime e - now"] by (simp add: ceil_div_real)
  next
    fix e
    show "(0 < \<lceil>real_of_int (resetTime e - now) / 1000\<rceil>) = (now < resetTime e)"
      using ceil_div_pos_iff[of "resetTime e - now"] by (simp add: ceil_div_real)
  next
    fix e assume "limitMap i = Some e \<and> now \<le> resetTime e \<and> real_of_int (count e) < rpm"
    then show "checkLimit rpm now i limitMap =
            (Inr (), limitMap(i \<mapsto> e\<lparr>count := count e + 1\<rparr>))"
      using checkLimit_increment[of limitMap i e now rpm] by simp
  next
    fix k
    assume h: "0 < rpm \<and> (limitMap i = None \<or> (\<exists>e. limitMap i = Some e \<and> resetTime e < t0))
          \<and> (\<forall>t\<in>set ts. t \<le> t0 + windowMs)" and k: "k < Suc (length ts)"
    show "(fst (checkSeq rpm i (t0 # ts) limitMap) ! k = Inr ()) = (int (Suc k) \<le> \<lceil>rpm\<rceil>)"
      using checkSeq_from_fresh(1)[of limitMap i t0 ts rpm] h k by simp
  next
    fix k
    assume h: "0 < rpm \<and> (limitMap i = None \<or> (\<exists>e. limitMap i = Some e \<and> resetTime e < t0))
          \<and> (\<forall>t\<in>set ts. t \<le> t0 + windowMs)" and k: "k < Suc (length ts)"
      and over: "\<lceil>rpm\<rceil> < int (Suc k)"
    have "fst (checkSeq rpm i (t0 # ts) limitMap) ! k =
        Inl (RateLimitError (ceil_div (t0 + windowMs - (t0 # ts) ! k) 1000))"
      using checkSeq_from_fresh(1)[of limitMap i t0 ts rpm] h k over by simp
    then show "fst (checkSeq rpm i (t0 # ts) limitMap) ! k =
        Inl (RateLimitError \<lceil>real_of_int (t0 + windowMs - (t0 # ts) ! k) / 1000\<rceil>)"
      by (simp only: ceil_div_real)
  next
    assume h: "0 < rpm \<and> (limitMap i = None \<or> (\<exists>e. limitMap i = Some e \<and> resetTime e < t0))
          \<and> (\<forall>t\<in>set ts. t \<le> t0 + windowMs)"
    then show "list_all (\<lambda>r. r = Inr ()) (fst (checkSeq rpm i (t0 # ts) limitMap))
                = (int (Suc (length ts)) \<le> \<lceil>rpm\<rceil>)"
      by (rule all_ok)
  next
    fix z
    assume h: "0 < rpm \<and> (limitMap i = None \<or> (\<exists>e. limitMap i = Some e \<and> resetTime e < t0))
          \<and> (\<forall>t\<in>set ts. t \<le> t0 + windowMs)" and z: "rpm = real_of_int z"
    have "\<lceil>rpm\<rceil> = z" using z by simp
    then show "list_all (\<lambda>r. r = Inr ()) (fst (checkSeq rpm i (t0 # ts) limitMap))
                = (int (Suc (length ts)) \<le> z)"
      using all_ok[OF h] by simp
  next
    assume h: "0 < rpm \<and> (limitMap i = None \<or> (\<exists>e. limitMap i = Some e \<and> resetTime e < t0))
          \<and> (\<forall>t\<in>set ts. t \<le> t0 + windowMs)"
    then show "snd (checkSeq rpm i (t0 # ts) limitMap) i =
               Some \<lparr>count = min (1 + int (length ts)) \<lceil>rpm\<rceil>, resetTime = t0 + windowMs\<rparr>"
      using checkSeq_from_fresh(2)[of limitMap i t0 ts rpm] by simp
  next
    fix t'
    assume h: "0 < rpm \<and> (limitMap i = None \<or> (\<exists>e. limitMap i = Some e \<and> resetTime e < t0))
          \<and> (\<forall>t\<in>set ts. t \<le> t0 + windowMs)" and t': "t0 + windowMs < t'"
    have "snd (checkSeq rpm i (t0 # ts) limitMap) i =
               Some \<lparr>count = min (1 + int (length ts)) \<lceil>rpm\<rceil>, resetTime = t0 + windowMs\<rparr>"
      using checkSeq_from_fresh(2)[of limitMap i t0 ts rpm] h by simp
    then show "checkLimit rpm t' i (snd (checkSeq rpm i (t0 # ts) limitMap)) =
                 (Inr (), (snd (checkSeq rpm i (t0 # ts) limitMap))
                    (i \<mapsto> \<lparr>count = 1, resetTime = t' + windowMs\<rparr>))"
      using t' by (intro checkLimit_fresh) simp
  qed
qed

theorem checkLimit_window_witness:
  "checkLimit 2 0 ''global'' Map.empty =
      (Inr (), [''global'' \<mapsto> \<lparr>count = 1, resetTime = 60000\<rparr>])
   \<and> checkLimit 2 1500 ''global'' [''global'' \<mapsto> \<lparr>count = 2, resetTime = 60000\<rparr>] =
      (Inl (RateLimitError 59), [''global'' \<mapsto> \<lparr>count = 2, resetTime = 60000\<rparr>])
   \<and> checkLimit 2 1500 ''global'' [''global'' \<mapsto> \<lparr>count = 1, resetTime = 60000\<rparr>] =
      (Inr (), [''global'' \<mapsto> \<lparr>count = 2, resetTime = 60000\<rparr>])
   \<and> list_all (\<lambda>r. r = Inr ()) (fst (checkSeq 2 ''global'' [0, 1000] Map.empty))
   \<and> \<not> list_all (\<lambda>r. r = Inr ()) (fst (checkSeq 2 ''global'' [0, 1000, 60000] Map.empty))
   \<and> snd (checkSeq 2 ''global'' [0, 1000, 60000] Map.empty) ''global'' =
        Some \<lparr>count = 2, resetTime = 60000\<rparr>
   \<and> list_all (\<lambda>r. r = Inr ()) (fst (checkSeq (5 / 2) ''global'' [0, 1000, 2000] Map.empty))
   \<and> \<not> list_all (\<lambda>r. r = Inr ())
         (fst (checkSeq (5 / 2) ''global'' [0, 1000, 2000, 3000] Map.empty))"
proof -
  have a: "checkLimit 2 0 ''global'' Map.empty =
      (Inr (), [''global'' \<mapsto> \<lparr>count = 1, resetTime = 60000\<rparr>])"
    using checkLimit_window[of Map.empty "''global''" 0 2 0 "[]"]
    by (simp add: windowMs_def)
  have b: "checkLimit 2 1500 ''global'' [''global'' \<mapsto> \<lparr>count = 2, resetTime = 60000\<rparr>] =
      (Inl (RateLimitError 59), [''global'' \<mapsto> \<lparr>count = 2, resetTime = 60000\<rparr>])"
    using checkLimit_window[of "[''global'' \<mapsto> \<lparr>count = 2, resetTime = 60000\<rparr>]"
        "''global''" 1500 2 0 "[]"]
    by simp
  have c: "checkLimit 2 1500 ''global'' [''global'' \<mapsto> \<lparr>count = 1, resetTime = 60000\<rparr>] =
      (Inr (), [''global'' \<mapsto> \<lparr>count = 2, resetTime = 60000\<rparr>])"
    using checkLimit_window[of "[''global'' \<mapsto> \<lparr>count = 1, resetTime = 60000\<rparr>]"
        "''global''" 1500 2 0 "[]"]
    by simp
  have d: "list_all (\<lambda>r. r = Inr ()) (fst (checkSeq 2 ''global'' [0, 1000] Map.empty))"
    using checkLimit_window[of Map.empty "''global''" 0 2 0 "[1000]"]
    by (simp add: windowMs_def del: checkSeq.simps)
  have e: "\<not> list_all (\<lambda>r. r = Inr ()) (fst (checkSeq 2 ''global'' [0, 1000, 60000] Map.empty))
     \<and> snd (checkSeq 2 ''global'' [0, 1000, 60000] Map.empty) ''global'' =
        Some \<lparr>count = 2, resetTime = 60000\<rparr>"
    using checkLimit_window[of Map.empty "''global''" 0 2 0 "[1000, 60000]"]
    by (simp add: windowMs_def del: checkSeq.simps)
  have up: "\<lceil>5 / 2 :: real\<rceil> = 3" by simp
  have f: "list_all (\<lambda>r. r = Inr ()) (fst (checkSeq (5 / 2) ''global'' [0, 1000, 2000] Map.empty))"
    using checkLimit_window[of Map.empty "''global''" 0 "5 / 2" 0 "[1000, 2000]"] up
    by (simp add: windowMs_def del: checkSeq.simps)
  have g: "\<not> list_all (\<lambda>r. r = Inr ())
         (fst (checkSeq (5 / 2) ''global'' [0, 1000, 2000, 3000] Map.empty))"
    using checkLimit_window[of Map.empty "''global''" 0 "5 / 2" 0 "[1000, 2000, 3000]"] up
    by (simp add: windowMs_def del: checkSeq.simps)
  from a b c d e f g show ?thesis by blast
qed

text \<open>
  Where C1 as written fails: a window with reset time 60000 and the ceiling reached, checked
  at clock 60000. The clock is \<open>\<ge>\<close> the reset time, yet no fresh window is started: the
  call fails, and the seconds it carries are 0.
\<close>

theorem checkLimit_at_reset_time_counterexample:
  "snd (checkLimit 1 0 ''global'' Map.empty) =
      [''global'' \<mapsto> \<lparr>count = 1, resetTime = 60000\<rparr>]
   \<and> checkLimit 1 60000 ''global'' [''global'' \<mapsto> \<lparr>count = 1, resetTime = 60000\<rparr>] =
      (Inl (RateLimitError 0), [''global'' \<mapsto> \<lparr>count = 1, resetTime = 60000\<rparr>])"
  by (simp add: checkLimit_def windowMs_def ceil_div_def)

text \<open>
  C10. A check for identifier \<open>a\<close>, whatever its outcome, leaves the entry of every other
  identifier \<open>b\<close> as it was (entries are records held by value in the table, one per
  identifier, so count and reset time alike), and \<open>reset a\<close> removes the entry of \<open>a\<close>
  and no other.
\<close>

theorem checkLimit_frame:
  "a \<noteq> b \<Longrightarrow>
     snd (checkLimit rpm now a limitMap) b = limitMap b
     \<and> reset a limitMap b = limitMap b
     \<and> reset a limitMap a = None"
  by (auto simp: checkLimit_def reset_def Let_def split: option.splits)

theorem checkLimit_frame_witness:
  "''a'' \<noteq> ''b''
   \<and> fst (checkLimit 1 50 ''a''
        [''a'' \<mapsto> \<lparr>count = 1, resetTime = 100\<rparr>, ''b'' \<mapsto> \<lparr>count = 3, resetTime = 70\<rparr>]) =
        Inl (RateLimitError 1)
   \<and> snd (checkLimit 1 50 ''a''
        [''a'' \<mapsto> \<lparr>count = 1, resetTime = 100\<rparr>, ''b'' \<mapsto> \<lparr>count = 3, resetTime = 70\<rparr>]) ''b'' =
        Some \<lparr>count = 3, resetTime = 70\<rparr>
   \<and> fst (checkLimit 5 50 ''a''
        [''a'' \<mapsto> \<lparr>count = 1, resetTime = 100\<rparr>, ''b'' \<mapsto> \<lparr>count = 3, resetTime = 70\<rparr>]) =
        Inr ()
   \<and> snd (checkLimit 5 50 ''a''
        [''a'' \<mapsto> \<lparr>count = 1, resetTime = 100\<rparr>, ''b'' \<mapsto> \<lparr>count = 3, resetTime = 70\<rparr>]) ''b'' =
        Some \<lparr>count = 3, resetTime = 70\<rparr>
   \<and> reset ''a''
        [''a'' \<mapsto> \<lparr>count = 1, resetTime = 100\<rparr>, ''b'' \<mapsto> \<lparr>count = 3, resetTime = 70\<rparr>] ''b'' =
        Some \<lparr>count = 3, resetTime = 70\<rparr>
   \<and> reset ''a''
        [''a'' \<mapsto> \<lparr>count = 1, resetTime = 100\<rparr>, ''b'' \<mapsto> \<lparr>count = 3, resetTime = 70\<rparr>] ''a'' =
        None"
proof -
  let ?m = "[''a'' \<mapsto> \<lparr>count = 1, resetTime = 100\<rparr>, ''b'' \<mapsto> \<lparr>count = 3, resetTime = 70\<rparr>]"
  have ne: "''a'' \<noteq> ''b''" by simp
  have f1: "fst (checkLimit 1 50 ''a'' ?m) = Inl (RateLimitError 1)"
    by (simp add: checkLimit_def ceil_div_def)
  have f2: "fst (checkLimit 5 50 ''a'' ?m) = Inr ()"
    by (simp add: checkLimit_def)
  have mb: "?m ''b'' = Some \<lparr>count = 3, resetTime = 70\<rparr>" by simp
  show ?thesis
    using ne f1 f2 mb checkLimit_frame[OF ne, of 1 50 ?m] checkLimit_frame[OF ne, of 5 50 ?m]
    by metis
qed

section \<open>HistoryManager: proofs\<close>

lemma floor_length_diff: "\<lfloor>real n - mx\<rfloor> = int n - \<lceil>mx\<rceil>"
proof -
  have "int n + \<lfloor>- mx\<rfloor> = \<lfloor>of_int (int n) + (- mx)\<rfloor>" by (rule int_add_floor)
  then show ?thesis by (simp add: ceiling_def)
qed

lemma updateHistory_at:
  "updateHistory mx c u a hs c =
     Some (drop (nat (int (length (stored hs c)) + 2 - \<lceil>mx\<rceil>)) (stored hs c @ [u, a]))"
proof -
  let ?pushed = "stored hs c @ [u, a]"
  have fl: "\<lfloor>real (length ?pushed) - mx\<rfloor> = int (length (stored hs c)) + 2 - \<lceil>mx\<rceil>"
    using floor_length_diff[of "length ?pushed" mx] by simp
  have small: "nat (int (length (stored hs c)) + 2 - \<lceil>mx\<rceil>) = 0"
    if "\<not> real (length ?pushed) > mx"
  proof -
    have "real (length ?pushed) \<le> mx" using that by simp
    then have "int (length ?pushed) \<le> \<lceil>mx\<rceil>" by (simp add: le_ceiling_iff)
    then show ?thesis by simp
  qed
  have "updateHistory mx c u a hs c =
      Some (if real (length ?pushed) > mx
            then drop (nat \<lfloor>real (length ?pushed) - mx\<rfloor>) ?pushed else ?pushed)"
    by (cases "hs c")
      (simp_all add: updateHistory_def getHistory_def stored_def splice_front_def Let_def)
  then show ?thesis using fl small by auto
qed

lemma updateHistory_other: "c' \<noteq> c \<Longrightarrow> updateHistory mx c u a hs c' = hs c'"
  by (cases "hs c") (auto simp: updateHistory_def getHistory_def Let_def)

lemma getHistory_at:
  "snd (getHistory c hs) c = Some (stored hs c)"
  by (cases "hs c") (auto simp: getHistory_def stored_def)

lemma getHistory_other: "c' \<noteq> c \<Longrightarrow> snd (getHistory c hs) c' = hs c'"
  by (cases "hs c") (auto simp: getHistory_def)

lemma appended_append: "appended c (xs @ ys) = appended c xs @ appended c ys"
  by (induction c xs rule: appended.induct) auto

lemma history_run_snoc:
  "history_run mx (calls @ [x]) = history_step mx (history_run mx calls) x"
  by (simp add: history_run_def)

lemma length_after_update:
  "0 \<le> z \<Longrightarrow> int (length (drop (nat (int (length h) + 2 - z)) (h @ [u, a]))) \<le> z"
  by auto

lemma suffix_after_update:
  assumes "suffix h all"
  shows "suffix (drop n (h @ [u, a])) (all @ [u, a])"
proof -
  have "suffix (drop n (h @ [u, a])) (h @ [u, a])" by (rule suffix_drop)
  moreover have "suffix (h @ [u, a]) (all @ [u, a])" using assms by simp
  ultimately show ?thesis by (rule suffix_order.trans)
qed

lemma history_run_invariant:
  assumes mx: "0 \<le> mx"
  shows "history_run mx calls c = Some h \<Longrightarrow>
         int (length h) \<le> \<lceil>mx\<rceil> \<and> suffix h (appended c calls)"
proof (induction calls arbitrary: h rule: rev_induct)
  case Nil
  then show ?case by (simp add: history_run_def)
next
  case (snoc x calls)
  let ?hs = "history_run mx calls"
  have up: "0 \<le> \<lceil>mx\<rceil>" using mx by (simp add: le_ceiling_iff)
  have st: "\<And>h'. ?hs c = Some h' \<Longrightarrow> int (length h') \<le> \<lceil>mx\<rceil> \<and> suffix h' (appended c calls)"
    using snoc.IH by blast
  have stored_ok: "int (length (stored ?hs c)) \<le> \<lceil>mx\<rceil> \<and> suffix (stored ?hs c) (appended c calls)"
    using st up by (cases "?hs c") (auto simp: stored_def)
  show ?case
  proof (cases x)
    case (GetHistory c0)
    show ?thesis
    proof (cases "c0 = c")
      case True
      then have "h = stored ?hs c"
        using snoc.prems GetHistory getHistory_at[of c ?hs] by (simp add: history_run_snoc)
      then show ?thesis using stored_ok GetHistory by (simp add: appended_append)
    next
      case False
      then have "?hs c = Some h"
        using snoc.prems GetHistory getHistory_other[of c c0 ?hs] by (simp add: history_run_snoc)
      then show ?thesis using st GetHistory by (simp add: appended_append)
    qed
  next
    case (UpdateHistory c0 u a)
    show ?thesis
    proof (cases "c0 = c")
      case True
      then have h: "h = drop (nat (int (length (stored ?hs c)) + 2 - \<lceil>mx\<rceil>)) (stored ?hs c @ [u, a])"
        using snoc.prems UpdateHistory updateHistory_at[of mx c u a ?hs]
        by (simp add: history_run_snoc)
      have "int (length h) \<le> \<lceil>mx\<rceil>" unfolding h using up by (rule length_after_update)
      moreover have "suffix h (appended c calls @ [u, a])"
        unfolding h using stored_ok by (intro suffix_after_update) simp
      ultimately show ?thesis using UpdateHistory True by (simp add: appended_append)
    next
      case False
      then have "?hs c = Some h"
        using snoc.prems UpdateHistory updateHistory_other[of c c0 mx u a ?hs]
        by (simp add: history_run_snoc)
      then show ?thesis using st UpdateHistory False by (simp add: appended_append)
    qed
  next
    case (ClearHistory c0)
    then have "?hs c = Some h"
      using snoc.prems by (cases "c0 = c") (auto simp: history_run_snoc clearHistory_def)
    then show ?thesis using st ClearHistory by (simp add: appended_append)
  qed
qed

text \<open>
  C6 (as the code has it). With a configured maximum that is not negative (the
  configuration loader rejects a maximum \<open>\<le> 0\<close>, and accepts one that is not a whole
  number): after any sequence of \<open>getHistory\<close>, \<open>updateHistory\<close> and \<open>clearHistory\<close>
  calls on a fresh manager, every stored list is no longer than the maximum rounded up to a
  whole number, hence no longer than the maximum when that is a whole number, and is a
  contiguous suffix of the messages handed to \<open>updateHistory\<close> for that conversation,
  in order; an update leaves a list stored; and with a whole-number maximum one update
  stores exactly the old list with the two messages appended, cut from the front to the
  maximum.
\<close>

theorem updateHistory_bounded_suffix:
  "0 \<le> maxHistoryLength \<longrightarrow>
     (\<forall>h. history_run maxHistoryLength calls c = Some h \<longrightarrow>
        int (length h) \<le> \<lceil>maxHistoryLength\<rceil> \<and> suffix h (appended c calls))
     \<and> (\<exists>h. history_run maxHistoryLength (calls @ [UpdateHistory c u a]) c = Some h
           \<and> int (length h) \<le> \<lceil>maxHistoryLength\<rceil>
           \<and> suffix h (appended c calls @ [u, a]))
     \<and> (\<forall>z. maxHistoryLength = real_of_int z \<longrightarrow>
           (\<forall>h. history_run maxHistoryLength calls c = Some h \<longrightarrow>
              real (length h) \<le> maxHistoryLength)
           \<and> updateHistory maxHistoryLength c u a histories c =
               Some (drop (length (stored histories c) + 2 - nat z)
                       (stored histories c @ [u, a])))"
proof (intro impI conjI allI)
  fix h
  assume "0 \<le> maxHistoryLength" "history_run maxHistoryLength calls c = Some h"
  then show "int (length h) \<le> \<lceil>maxHistoryLength\<rceil>" using history_run_invariant by blast
next
  fix h
  assume "0 \<le> maxHistoryLength" "history_run maxHistoryLength calls c = Some h"
  then show "suffix h (appended c calls)" using history_run_invariant by blast
next
  assume mx: "0 \<le> maxHistoryLength"
  let ?calls = "calls @ [UpdateHistory c u a]"
  obtain h where h: "history_run maxHistoryLength ?calls c = Some h"
    using updateHistory_at[of maxHistoryLength c u a "history_run maxHistoryLength calls"]
    by (simp add: history_run_snoc)
  have "int (length h) \<le> \<lceil>maxHistoryLength\<rceil> \<and> suffix h (appended c ?calls)"
    using mx h by (rule history_run_invariant)
  then show "\<exists>h. history_run maxHistoryLength ?calls c = Some h
           \<and> int (length h) \<le> \<lceil>maxHistoryLength\<rceil>
           \<and> suffix h (appended c calls @ [u, a])"
    using h by (simp add: appended_append)
next
  fix z h
  assume mx: "0 \<le> maxHistoryLength" and z: "maxHistoryLength = real_of_int z"
    and h: "history_run maxHistoryLength calls c = Some h"
  have "int (length h) \<le> \<lceil>maxHistoryLength\<rceil>"
    using mx h history_run_invariant by blast
  then have "int (length h) \<le> z" using z by simp
  then have "real_of_int (int (length h)) \<le> real_of_int z" by (simp only: of_int_le_iff)
  then show "real (length h) \<le> maxHistoryLength" using z by simp
next
  fix z
  assume mx: "0 \<le> maxHistoryLength" and z: "maxHistoryLength = real_of_int z"
  have zc: "\<lceil>maxHistoryLength\<rceil> = z" using z by simp
  have "0 \<le> z" using mx z by simp
  then have "nat (int (length (stored histories c)) + 2 - z) =
        length (stored histories c) + 2 - nat z"
    by linarith
  then show "updateHistory maxHistoryLength c u a histories c =
         Some (drop (length (stored histories c) + 2 - nat z)
                 (stored histories c @ [u, a]))"
    using updateHistory_at[of maxHistoryLength c u a histories] zc by simp
qed

theorem updateHistory_bounded_suffix_witness:
  "(0::real) \<le> 2
   \<and> history_run 2
       [UpdateHistory ''c'' \<lparr>role = User, content = ''q1''\<rparr> \<lparr>role = Assistant, content = ''r1''\<rparr>,
        UpdateHistory ''c'' \<lparr>role = User, content = ''q2''\<rparr> \<lparr>role = Assistant, content = ''r2''\<rparr>]
       ''c'' =
     Some [\<lparr>role = User, content = ''q2''\<rparr>, \<lparr>role = Assistant, content = ''r2''\<rparr>]
   \<and> suffix [\<lparr>role = User, content = ''q2''\<rparr>, \<lparr>role = Assistant, content = ''r2''\<rparr>]
       (appended ''c''
         [UpdateHistory ''c'' \<lparr>role = User, content = ''q1''\<rparr> \<lparr>role = Assistant, content = ''r1''\<rparr>,
          UpdateHistory ''c'' \<lparr>role = User, content = ''q2''\<rparr> \<lparr>role = Assistant, content = ''r2''\<rparr>])
   \<and> int (length [\<lparr>role = User, content = ''q2''\<rparr>, \<lparr>role = Assistant, content = ''r2''\<rparr>])
       \<le> \<lceil>2 :: real\<rceil>"
proof -
  let ?calls =
    "[UpdateHistory ''c'' \<lparr>role = User, content = ''q1''\<rparr> \<lparr>role = Assistant, content = ''r1''\<rparr>,
      UpdateHistory ''c'' \<lparr>role = User, content = ''q2''\<rparr> \<lparr>role = Assistant, content = ''r2''\<rparr>]"
  have run: "history_run 2 ?calls ''c'' =
     Some [\<lparr>role = User, content = ''q2''\<rparr>, \<lparr>role = Assistant, content = ''r2''\<rparr>]"
    by (simp add: history_run_def updateHistory_def getHistory_def splice_front_def)
  have pos: "(0::real) \<le> 2" by simp
  have "\<forall>h. history_run 2 ?calls ''c'' = Some h \<longrightarrow>
        int (length h) \<le> \<lceil>2 :: real\<rceil> \<and> suffix h (appended ''c'' ?calls)"
    using updateHistory_bounded_suffix[of 2 ?calls "''c''"] pos by blast
  then have "int (length [\<lparr>role = User, content = ''q2''\<rparr>, \<lparr>role = Assistant, content = ''r2''\<rparr>])
       \<le> \<lceil>2 :: real\<rceil>
     \<and> suffix [\<lparr>role = User, content = ''q2''\<rparr>, \<lparr>role = Assistant, content = ''r2''\<rparr>]
       (appended ''c'' ?calls)"
    using run by blast
  with run pos show ?thesis by blast
qed

text \<open>
  Where C6 as written fails: a configured maximum of 2.5, which the configuration loader
  accepts. The second update appends to a list of 2, the excess 1.5 is cut to 1 by
  \<^verbatim>\<open>splice\<close>, and 3 messages stay stored, more than the maximum.
\<close>

theorem updateHistory_fractional_maximum_counterexample:
  "history_run (5 / 2)
       [UpdateHistory ''c'' \<lparr>role = User, content = ''q1''\<rparr> \<lparr>role = Assistant, content = ''r1''\<rparr>,
        UpdateHistory ''c'' \<lparr>role = User, content = ''q2''\<rparr> \<lparr>role = Assistant, content = ''r2''\<rparr>]
       ''c'' =
     Some [\<lparr>role = Assistant, content = ''r1''\<rparr>, \<lparr>role = User, content = ''q2''\<rparr>,
           \<lparr>role = Assistant, content = ''r2''\<rparr>]
   \<and> \<not> real (length [\<lparr>role = Assistant, content = ''r1''\<rparr>, \<lparr>role = User, content = ''q2''\<rparr>,
           \<lparr>role = Assistant, content = ''r2''\<rparr>]) \<le> 5 / 2"
proof -
  have fl: "\<lfloor>3 / 2 :: real\<rfloor> = 1" by simp
  show ?thesis
    by (simp add: history_run_def updateHistory_def getHistory_def splice_front_def fl)
qed

lemma trimmed_eq:
  "trimmed mx c u a hs =
     min (length (stored hs c) + 2) (nat (int (length (stored hs c)) + 2 - \<lceil>mx\<rceil>))"
  unfolding trimmed_def using updateHistory_at[of mx c u a hs]
  by (simp add: stored_def)

lemma even_after_update:
  assumes "even z" "even (length h)"
  shows "even (length (drop (nat (int (length h) + 2 - z)) (h @ [u, a])))"
proof (cases "int (length h) + 2 \<le> z")
  case True
  then show ?thesis using assms by simp
next
  case False
  show ?thesis
  proof (cases "0 \<le> z")
    case True
    then have "int (length (drop (nat (int (length h) + 2 - z)) (h @ [u, a]))) = z"
      using False by auto
    then show ?thesis using assms(1) by (metis even_of_nat)
  next
    case False
    then show ?thesis by simp
  qed
qed

lemma history_run_even:
  assumes mx: "even \<lceil>mx\<rceil>"
  shows "history_run mx calls c = Some h \<Longrightarrow> even (length h)"
proof (induction calls arbitrary: h rule: rev_induct)
  case Nil
  then show ?case by (simp add: history_run_def)
next
  case (snoc x calls)
  let ?hs = "history_run mx calls"
  have st: "\<And>h'. ?hs c = Some h' \<Longrightarrow> even (length h')"
    using snoc.IH by blast
  have stored_ok: "even (length (stored ?hs c))"
    using st by (cases "?hs c") (auto simp: stored_def)
  show ?case
  proof (cases x)
    case (GetHistory c0)
    show ?thesis
    proof (cases "c0 = c")
      case True
      then have "h = stored ?hs c"
        using snoc.prems GetHistory getHistory_at[of c ?hs] by (simp add: history_run_snoc)
      then show ?thesis using stored_ok by simp
    next
      case False
      then have "?hs c = Some h"
        using snoc.prems GetHistory getHistory_other[of c c0 ?hs] by (simp add: history_run_snoc)
      then show ?thesis using st by simp
    qed
  next
    case (UpdateHistory c0 u a)
    show ?thesis
    proof (cases "c0 = c")
      case True
      then have h: "h = drop (nat (int (length (stored ?hs c)) + 2 - \<lceil>mx\<rceil>)) (stored ?hs c @ [u, a])"
        using snoc.prems UpdateHistory updateHistory_at[of mx c u a ?hs]
        by (simp add: history_run_snoc)
      show ?thesis unfolding h using mx stored_ok by (rule even_after_update)
    next
      case False
      then have "?hs c = Some h"
        using snoc.prems UpdateHistory updateHistory_other[of c c0 mx u a ?hs]
        by (simp add: history_run_snoc)
      then show ?thesis using st by simp
    qed
  next
    case (ClearHistory c0)
    then have "?hs c = Some h"
      using snoc.prems by (cases "c0 = c") (auto simp: history_run_snoc clearHistory_def)
    then show ?thesis using st by simp
  qed
qed

text \<open>
  C7 (as the code has it). With a configured maximum that is a whole number, one
  \<open>updateHistory\<close> call removes from the front exactly the excess of the appended list
  over the maximum (all of the list when the maximum is negative), with no rounding to
  pairs. When that whole number is even, every list that calls on a fresh manager store has
  even length, and an update of a list of even length removes an even number of messages.
\<close>

theorem updateHistory_trims_excess:
  "maxHistoryLength = real_of_int z \<longrightarrow>
     trimmed maxHistoryLength c u a histories =
       min (length (stored histories c) + 2)
         (nat (int (length (stored histories c)) + 2 - z))
     \<and> (even z \<longrightarrow>
          (\<forall>h. history_run maxHistoryLength calls c = Some h \<longrightarrow> even (length h))
          \<and> (even (length (stored histories c)) \<longrightarrow>
               even (trimmed maxHistoryLength c u a histories)))"
proof (intro conjI impI allI)
  assume z: "maxHistoryLength = real_of_int z"
  then have zc: "\<lceil>maxHistoryLength\<rceil> = z" by simp
  show "trimmed maxHistoryLength c u a histories =
     min (length (stored histories c) + 2)
       (nat (int (length (stored histories c)) + 2 - z))"
    using trimmed_eq[of maxHistoryLength c u a histories] zc by simp
next
  fix h
  assume z: "maxHistoryLength = real_of_int z" and ev: "even z"
    and h: "history_run maxHistoryLength calls c = Some h"
  have "even \<lceil>maxHistoryLength\<rceil>" using z ev by simp
  then show "even (length h)" using h by (rule history_run_even)
next
  assume z: "maxHistoryLength = real_of_int z" and mx: "even z"
    and ev: "even (length (stored histories c))"
  have zc: "\<lceil>maxHistoryLength\<rceil> = z" using z by simp
  let ?h = "stored histories c"
  have new: "even (length (drop (nat (int (length ?h) + 2 - z)) (?h @ [u, a])))"
    using mx ev by (rule even_after_update)
  have "trimmed maxHistoryLength c u a histories =
      length ?h + 2 - length (drop (nat (int (length ?h) + 2 - z)) (?h @ [u, a]))"
    unfolding trimmed_def using updateHistory_at[of maxHistoryLength c u a histories] zc
    by (simp add: stored_def)
  moreover have "length (drop (nat (int (length ?h) + 2 - z)) (?h @ [u, a]))
      \<le> length ?h + 2" by simp
  ultimately show "even (trimmed maxHistoryLength c u a histories)"
    using new ev by (simp del: length_drop)
qed

theorem updateHistory_trims_excess_witness:
  "(4::real) = real_of_int 4
   \<and> even (4::int)
   \<and> even (length (stored [''c'' \<mapsto> [\<lparr>role = User, content = ''q0''\<rparr>,
        \<lparr>role = Assistant, content = ''r0''\<rparr>, \<lparr>role = User, content = ''q1''\<rparr>,
        \<lparr>role = Assistant, content = ''r1''\<rparr>]] ''c''))
   \<and> trimmed 4 ''c'' \<lparr>role = User, content = ''q2''\<rparr> \<lparr>role = Assistant, content = ''r2''\<rparr>
        [''c'' \<mapsto> [\<lparr>role = User, content = ''q0''\<rparr>,
        \<lparr>role = Assistant, content = ''r0''\<rparr>, \<lparr>role = User, content = ''q1''\<rparr>,
        \<lparr>role = Assistant, content = ''r1''\<rparr>]] = 2
   \<and> even (trimmed 4 ''c'' \<lparr>role = User, content = ''q2''\<rparr> \<lparr>role = Assistant, content = ''r2''\<rparr>
        [''c'' \<mapsto> [\<lparr>role = User, content = ''q0''\<rparr>,
        \<lparr>role = Assistant, content = ''r0''\<rparr>, \<lparr>role = User, content = ''q1''\<rparr>,
        \<lparr>role = Assistant, content = ''r1''\<rparr>]])"
proof -
  let ?hs = "[''c'' \<mapsto> [\<lparr>role = User, content = ''q0''\<rparr>,
        \<lparr>role = Assistant, content = ''r0''\<rparr>, \<lparr>role = User, content = ''q1''\<rparr>,
        \<lparr>role = Assistant, content = ''r1''\<rparr>]]"
  have st: "length (stored ?hs ''c'') = 4" by (simp add: stored_def)
  have whole: "(4::real) = real_of_int 4" by simp
  show ?thesis
    using st whole updateHistory_trims_excess[of 4 4 "''c''" "\<lparr>role = User, content = ''q2''\<rparr>"
        "\<lparr>role = Assistant, content = ''r2''\<rparr>" ?hs "[]"]
    by simp
qed

text \<open>
  Where C7 as written fails: with a maximum of 3, the second update of a conversation
  removes one message, the user message of the first pair, and the stored list then
  starts with the first assistant message.
\<close>

theorem updateHistory_odd_maximum_counterexample:
  "trimmed 3 ''c'' \<lparr>role = User, content = ''q2''\<rparr> \<lparr>role = Assistant, content = ''r2''\<rparr>
     (updateHistory 3 ''c'' \<lparr>role = User, content = ''q1''\<rparr>
        \<lparr>role = Assistant, content = ''r1''\<rparr> Map.empty) = 1
   \<and> updateHistory 3 ''c'' \<lparr>role = User, content = ''q2''\<rparr> \<lparr>role = Assistant, content = ''r2''\<rparr>
     (updateHistory 3 ''c'' \<lparr>role = User, content = ''q1''\<rparr>
        \<lparr>role = Assistant, content = ''r1''\<rparr> Map.empty) ''c'' =
     Some [\<lparr>role = Assistant, content = ''r1''\<rparr>, \<lparr>role = User, content = ''q2''\<rparr>,
           \<lparr>role = Assistant, content = ''r2''\<rparr>]"
  by (simp add: trimmed_def stored_def updateHistory_def getHistory_def splice_front_def)

text \<open>
  C9. \<open>hasHistory\<close> holds for an id iff a list is stored for it and the list is not
  empty. On an id with nothing stored, \<open>getHistory\<close> returns the empty list and stores
  it, and \<open>hasHistory\<close> is still false afterwards.
\<close>

theorem hasHistory_nonempty:
  "(hasHistory histories c \<longleftrightarrow> (\<exists>h. histories c = Some h \<and> h \<noteq> []))
   \<and> (histories c = None \<longrightarrow>
        getHistory c histories = ([], histories(c \<mapsto> []))
        \<and> snd (getHistory c histories) c = Some []
        \<and> \<not> hasHistory (snd (getHistory c histories)) c)"
  by (auto simp: hasHistory_def getHistory_def split: option.splits)

theorem hasHistory_nonempty_witness:
  "(Map.empty :: history_map) ''conv'' = None
   \<and> \<not> hasHistory Map.empty ''conv''
   \<and> snd (getHistory ''conv'' Map.empty) ''conv'' = Some []
   \<and> \<not> hasHistory (snd (getHistory ''conv'' Map.empty)) ''conv''
   \<and> hasHistory [''conv'' \<mapsto> [\<lparr>role = User, content = ''hi''\<rparr>]] ''conv''"
proof -
  have none: "(Map.empty :: history_map) ''conv'' = None" by simp
  have a: "\<not> hasHistory Map.empty ''conv''"
    using hasHistory_nonempty[of Map.empty "''conv''"] by simp
  have b: "snd (getHistory ''conv'' Map.empty) ''conv'' = Some []
      \<and> \<not> hasHistory (snd (getHistory ''conv'' Map.empty)) ''conv''"
    using hasHistory_nonempty[of Map.empty "''conv''"] none by blast
  have c: "hasHistory [''conv'' \<mapsto> [\<lparr>role = User, content = ''hi''\<rparr>]] ''conv''"
    using hasHistory_nonempty[of "[''conv'' \<mapsto> [\<lparr>role = User, content = ''hi''\<rparr>]]" "''conv''"]
    by simp
  from none a b c show ?thesis by blast
qed

section \<open>ModelSelector: proofs\<close>

lemma includes_str_sublist: "includes_str s k = sublist k s"
  by (induction s) (simp_all add: sublist_Cons_right)

lemma toLowerCase_append: "toLowerCase (xs @ ys) = toLowerCase xs @ toLowerCase ys"
  by (simp add: toLowerCase_def)

lemma lower_char_idem: "lower_char (lower_char c) = lower_char c"
  by (simp add: lower_char_def)

lemma toLowerCase_idem: "toLowerCase (toLowerCase s) = toLowerCase s"
  by (simp add: toLowerCase_def lower_char_idem)

lemma toLowerCase_refactor:
  "toLowerCase ''refactor this function'' = ''refactor this function''"
  by (simp add: toLowerCase_def lower_char_def)

lemma includes_str_fun: "includes_str s = (\<lambda>k. sublist k s)"
  by (rule ext) (rule includes_str_sublist)

lemma isCodingTask_refactor:
  "isCodingTask (toLowerCase (pre @ ''refactor this function'' @ post))"
proof -
  have split: "''refactor this function'' = ''refactor'' @ '' this function''" by simp
  have eq: "toLowerCase (pre @ ''refactor this function'' @ post) =
      toLowerCase pre @ ''refactor'' @ ('' this function'' @ toLowerCase post)"
    by (simp only: toLowerCase_append toLowerCase_refactor) (simp only: split append_assoc)
  have "includes_str (toLowerCase (pre @ ''refactor this function'' @ post)) ''refactor''"
    by (simp only: eq includes_str_sublist sublist_appendI)
  then show ?thesis
    by (simp add: isCodingTask_def codingKeywords_def)
qed

lemma selectModel_cases:
  "selectModel t =
     (if list_ex (\<lambda>k. sublist k (toLowerCase t)) codingKeywords then gpt_5_codex
      else if list_ex (\<lambda>k. sublist k (toLowerCase t)) complexKeywords then grok_code_fast_1
      else if list_ex (\<lambda>k. sublist k (toLowerCase t)) quickKeywords then gemini_2_5_pro
      else if list_ex (\<lambda>k. sublist k (toLowerCase t)) budgetKeywords then grok_code_fast_1
      else gpt_5_codex)"
  by (simp add: selectModel_def Let_def isCodingTask_def isComplexAnalysisTask_def
      isQuickQuestionTask_def isBudgetTask_def includes_str_fun)

lemma selectModel_budget: "selectModel ''budget'' = grok_code_fast_1"
  by (simp add: selectModel_def Let_def isCodingTask_def isComplexAnalysisTask_def
      isQuickQuestionTask_def isBudgetTask_def codingKeywords_def complexKeywords_def
      quickKeywords_def budgetKeywords_def toLowerCase_def lower_char_def)

lemma selectModel_empty: "selectModel [] = gpt_5_codex"
  by (simp add: selectModel_def Let_def isCodingTask_def isComplexAnalysisTask_def
      isQuickQuestionTask_def isBudgetTask_def codingKeywords_def complexKeywords_def
      quickKeywords_def budgetKeywords_def toLowerCase_def)

lemma selectModel_no_keyword:
  assumes "\<forall>k\<in>set (codingKeywords @ complexKeywords @ quickKeywords @ budgetKeywords).
             \<not> sublist k (toLowerCase t)"
  shows "selectModel t = gpt_5_codex"
proof -
  have "\<not> list_ex (\<lambda>k. sublist k (toLowerCase t)) codingKeywords"
    and "\<not> list_ex (\<lambda>k. sublist k (toLowerCase t)) complexKeywords"
    and "\<not> list_ex (\<lambda>k. sublist k (toLowerCase t)) quickKeywords"
    and "\<not> list_ex (\<lambda>k. sublist k (toLowerCase t)) budgetKeywords"
    using assms by (auto simp: list_ex_iff)
  then show ?thesis by (simp add: selectModel_cases)
qed

text \<open>
  C8. \<open>selectModel\<close> depends on its input only through the lower-cased text, and tests
  the four keyword lists in the order coding, complex analysis, quick question, budget,
  the first list with a keyword occurring in the text deciding the descriptor. A text
  containing "refactor this function" gives the descriptor stored under gpt-5-codex, the
  text "budget" the one stored under grok-code-fast-1, and an empty text or one with no
  keyword the default, again the descriptor of gpt-5-codex. (Being a function, equal
  inputs give equal descriptors.)
\<close>

theorem selectModel_keyword_order:
  "(toLowerCase s = toLowerCase t \<longrightarrow> selectModel s = selectModel t)
   \<and> selectModel (toLowerCase t) = selectModel t
   \<and> selectModel t =
       (if list_ex (\<lambda>k. sublist k (toLowerCase t)) codingKeywords then gpt_5_codex
        else if list_ex (\<lambda>k. sublist k (toLowerCase t)) complexKeywords then grok_code_fast_1
        else if list_ex (\<lambda>k. sublist k (toLowerCase t)) quickKeywords then gemini_2_5_pro
        else if list_ex (\<lambda>k. sublist k (toLowerCase t)) budgetKeywords then grok_code_fast_1
        else gpt_5_codex)
   \<and> selectModel (pre @ ''refactor this function'' @ post) = gpt_5_codex
   \<and> selectModel ''budget'' = grok_code_fast_1
   \<and> selectModel [] = gpt_5_codex
   \<and> ((\<forall>k\<in>set (codingKeywords @ complexKeywords @ quickKeywords @ budgetKeywords).
          \<not> sublist k (toLowerCase t)) \<longrightarrow> selectModel t = gpt_5_codex)
   \<and> map_of AVAILABLE_MODELS ''gpt-5-codex'' = Some gpt_5_codex
   \<and> map_of AVAILABLE_MODELS ''grok-code-fast-1'' = Some grok_code_fast_1"
proof (intro conjI impI)
  assume "toLowerCase s = toLowerCase t"
  then show "selectModel s = selectModel t" by (simp add: selectModel_def)
next
  show "selectModel (toLowerCase t) = selectModel t"
    by (simp add: selectModel_def toLowerCase_idem)
next
  show "selectModel t =
       (if list_ex (\<lambda>k. sublist k (toLowerCase t)) codingKeywords then gpt_5_codex
        else if list_ex (\<lambda>k. sublist k (toLowerCase t)) complexKeywords then grok_code_fast_1
        else if list_ex (\<lambda>k. sublist k (toLowerCase t)) quickKeywords then gemini_2_5_pro
        else if list_ex (\<lambda>k. sublist k (toLowerCase t)) budgetKeywords then grok_code_fast_1
        else gpt_5_codex)"
    by (rule selectModel_cases)
next
  show "selectModel (pre @ ''refactor this function'' @ post) = gpt_5_codex"
    using isCodingTask_refactor[of pre post] by (simp add: selectModel_def)
next
  show "selectModel ''budget'' = grok_code_fast_1" by (rule selectModel_budget)
next
  show "selectModel [] = gpt_5_codex" by (rule selectModel_empty)
next
  assume "\<forall>k\<in>set (codingKeywords @ complexKeywords @ quickKeywords @ budgetKeywords).
          \<not> sublist k (toLowerCase t)"
  then show "selectModel t = gpt_5_codex" by (rule selectModel_no_keyword)
next
  show "map_of AVAILABLE_MODELS ''gpt-5-codex'' = Some gpt_5_codex"
    by (simp add: AVAILABLE_MODELS_def)
next
  show "map_of AVAILABLE_MODELS ''grok-code-fast-1'' = Some grok_code_fast_1"
    by (simp add: AVAILABLE_MODELS_def)
qed

theorem selectModel_keyword_order_witness:
  "toLowerCase ''Explain DNS'' = toLowerCase ''explain dns''
   \<and> selectModel ''Explain DNS'' = selectModel ''explain dns''
   \<and> selectModel ''explain dns'' = gemini_2_5_pro
   \<and> list_all (\<lambda>k. \<not> sublist k (toLowerCase ''Hello''))
       (codingKeywords @ complexKeywords @ quickKeywords @ budgetKeywords)
   \<and> selectModel ''Hello'' = gpt_5_codex
   \<and> selectModel ''Please refactor this function now'' = gpt_5_codex"
proof -
  have low: "toLowerCase ''Explain DNS'' = toLowerCase ''explain dns''"
    by (simp add: toLowerCase_def lower_char_def)
  have lowh: "toLowerCase ''Hello'' = ''hello''"
    by (simp add: toLowerCase_def lower_char_def)
  have lowe: "toLowerCase ''explain dns'' = ''explain dns''"
    by (simp add: toLowerCase_def lower_char_def)
  have free: "list_all (\<lambda>k. \<not> sublist k (toLowerCase ''Hello''))
       (codingKeywords @ complexKeywords @ quickKeywords @ budgetKeywords)"
    unfolding lowh
    by (simp add: includes_str_sublist[symmetric] codingKeywords_def complexKeywords_def
        quickKeywords_def budgetKeywords_def)
  have a: "selectModel ''Explain DNS'' = selectModel ''explain dns''"
    using selectModel_keyword_order[of "''Explain DNS''" "''explain dns''" "[]" "[]"] low by blast
  have b: "selectModel ''explain dns'' = gemini_2_5_pro"
    using selectModel_keyword_order[of "''explain dns''" "''explain dns''" "[]" "[]"]
    unfolding lowe
    by (simp add: includes_str_sublist[symmetric] codingKeywords_def complexKeywords_def
        quickKeywords_def budgetKeywords_def)
  have c: "selectModel ''Hello'' = gpt_5_codex"
  proof -
    have "\<forall>k\<in>set (codingKeywords @ complexKeywords @ quickKeywords @ budgetKeywords).
        \<not> sublist k (toLowerCase ''Hello'')"
      using free by (simp only: list_all_iff)
    then show ?thesis
      using selectModel_keyword_order[of "''Hello''" "''Hello''" "[]" "[]"] by blast
  qed
  have d: "selectModel ''Please refactor this function now'' = gpt_5_codex"
    using selectModel_keyword_order[of "[]" "[]" "''Please ''" "'' now''"] by simp
  from low a b free c d show ?thesis by blast
qed

section \<open>ConsultationService: proofs\<close>

lemma consultSingle_ignores_models:
  "consultSingle config apiClient now (args\<lparr>models := ms\<rparr>) s =
   consultSingle config apiClient now args s"
  by (simp add: consultSingle_def Let_def
      cong: option.case_cong sum.case_cong prod.case_cong if_cong)

text \<open>
  C3 (as the code has it). A request whose \<open>models\<close> list is empty is not rejected by
  \<open>consult\<close>: the dispatch sends only a non-empty list to the multi-model path, and an
  empty list is handled exactly as the same request with no list, on the single-model
  path. The rejection exists in \<open>consultMultipleModels\<close> alone, which on an absent or
  empty list fails with "No models specified for multi-model consultation" and leaves the
  service untouched.
\<close>

theorem consult_empty_models:
  "(models args = Some [] \<longrightarrow>
      consult config apiClient now args s = consultSingle config apiClient now args s
      \<and> consult config apiClient now args s =
          consult config apiClient now (args\<lparr>models := None\<rparr>) s)
   \<and> (models args = Some [] \<or> models args = None \<longrightarrow>
      consultMultipleModels config apiClient now args s =
        (Inl (PlainError ''No models specified for multi-model consultation''), s))"
  by (auto simp: consult_def consultMultipleModels_def consultSingle_ignores_models)

theorem consult_empty_models_witness:
  "models ((request ''budget'')\<lparr>models := Some []\<rparr>) = Some []
   \<and> consult defaultConfig answeringClient 0 ((request ''budget'')\<lparr>models := Some []\<rparr>) newService =
       consult defaultConfig answeringClient 0
         (((request ''budget'')\<lparr>models := Some []\<rparr>)\<lparr>models := None\<rparr>) newService
   \<and> consultMultipleModels defaultConfig answeringClient 0
         ((request ''budget'')\<lparr>models := Some []\<rparr>) newService =
       (Inl (PlainError ''No models specified for multi-model consultation''), newService)"
proof -
  have m: "models ((request ''budget'')\<lparr>models := Some []\<rparr>) = Some []" by simp
  show ?thesis
    using m consult_empty_models[of "(request ''budget'')\<lparr>models := Some []\<rparr>"
        defaultConfig answeringClient 0 newService]
    by blast
qed

text \<open>
  Where C3 as written fails: the request with prompt "budget" and an empty \<open>models\<close>
  list, on a new service with an upstream that answers, is not rejected; it is answered by
  the auto-selected model.
\<close>

theorem consult_empty_models_counterexample:
  "fst (consult defaultConfig answeringClient 0 ((request ''budget'')\<lparr>models := Some []\<rparr>)
          newService) =
     Inr (answer (Some ''x-ai/grok-code-fast-1''))"
proof -
  have sel: "selectModel ''budget'' = grok_code_fast_1" by (rule selectModel_budget)
  show ?thesis
    by (simp add: consult_def consultSingle_def request_def newService_def defaultConfig_def
        answeringClient_def checkLimit_def or_else_def truthy_def service_selectModel_def
        checkCache_def sel grok_code_fast_1_def Let_def)
qed

lemma getModelById_Undefined_iff:
  "getModelById m = Undefined \<longleftrightarrow>
     m \<notin> set (map fst AVAILABLE_MODELS) \<and> m \<notin> set objectPrototypeKeys"
  by (auto simp: getModelById_def map_of_eq_None_iff[symmetric] split: option.splits)

lemma service_selectModel_unknown:
  assumes "getModelById m = Undefined" "m \<noteq> []"
  shows "service_selectModel (Some m) taskDescription p =
     (Some (id' (selectModel (or_else taskDescription p))),
      [''Invalid model ID: '' @ m @ ''. Using auto-selection.''])"
  using assms by (simp add: service_selectModel_def truthy_def)

lemma service_selectModel_absent:
  "service_selectModel None taskDescription p =
     (Some (id' (selectModel (or_else taskDescription p))), [])"
  by (simp add: service_selectModel_def truthy_def)

lemma consultSingle_same_selection:
  assumes "fst (service_selectModel (ConsultArgs.model args) (task_description args) (prompt args)) =
           fst (service_selectModel x (task_description args) (prompt args))"
  shows "fst (consultSingle config apiClient now args s) =
         fst (consultSingle config apiClient now (args\<lparr>ConsultArgs.model := x\<rparr>) s)"
  using assms
  by (simp add: consultSingle_def Let_def split_beta
      split: sum.splits option.splits
      cong: option.case_cong sum.case_cong prod.case_cong if_cong)

lemma consultOne_warnings:
  "warnings (snd (snd (snd (snd (consultOne apiClient p cid (rs, tp, tc, tt, s) m))))) =
   warnings s"
  by (simp add: consultOne_def collectResult_def Let_def
      split: option.splits sum.splits property_read.splits)

lemma consultOne_unknown_call:
  assumes "getModelById m = Undefined"
    and "cid \<noteq> None \<or> checkCache p (Some m) (cache s) = None"
  shows "apiCalls (snd (snd (snd (snd (consultOne apiClient p cid (rs, tp, tc, tt, s) m))))) =
     apiCalls s @
       [(p, Some m, case cid of None \<Rightarrow> [] | Some c \<Rightarrow> stored (historyManager s) c)]"
proof (cases cid)
  case None
  then show ?thesis using assms
    by (simp add: consultOne_def collectResult_def Let_def split: sum.splits option.splits)
next
  case (Some c)
  have "fst (getHistory c (historyManager s)) = stored (historyManager s) c"
    by (simp add: getHistory_def stored_def split: option.splits)
  then show ?thesis using assms Some
    by (simp add: consultOne_def collectResult_def Let_def split: sum.splits option.splits)
qed

text \<open>
  C4 (as the code has it). A model id is unknown when the property read for it gives
  \<^verbatim>\<open>undefined\<close>: it is none of the three keys of the model table and none of the
  property names inherited from \<^verbatim>\<open>Object.prototype\<close>. In single-model mode an unknown,
  non-empty id is never an error: one warning is written and the provider id is the
  auto-selection from the task description or else the prompt, so the outcome of the
  request is that of the same request with no model id. In a multi-model batch an unknown
  id is never an error at resolution either, but there is no auto-selection and no
  warning: the id itself is what the upstream is called with.
\<close>

theorem unknown_model_id:
  "(getModelById m = Undefined \<longleftrightarrow>
      m \<notin> set (map fst AVAILABLE_MODELS) \<and> m \<notin> set objectPrototypeKeys)
   \<and> (getModelById m = Undefined \<and> m \<noteq> [] \<longrightarrow>
        service_selectModel (Some m) taskDescription p =
          (Some (id' (selectModel (or_else taskDescription p))),
           [''Invalid model ID: '' @ m @ ''. Using auto-selection.''])
        \<and> service_selectModel None taskDescription p =
          (Some (id' (selectModel (or_else taskDescription p))), [])
        \<and> (ConsultArgs.model args = Some m \<and> (models args = None \<or> models args = Some []) \<longrightarrow>
             fst (consult config apiClient now args s) =
             fst (consult config apiClient now (args\<lparr>ConsultArgs.model := None\<rparr>) s)))
   \<and> (getModelById m = Undefined \<longrightarrow>
        warnings (snd (snd (snd (snd (consultOne apiClient p cid (rs, tp, tc, tt, s) m))))) =
          warnings s
        \<and> (cid \<noteq> None \<or> checkCache p (Some m) (cache s) = None \<longrightarrow>
             apiCalls (snd (snd (snd (snd (consultOne apiClient p cid (rs, tp, tc, tt, s) m))))) =
               apiCalls s @
                 [(p, Some m, case cid of None \<Rightarrow> [] | Some c \<Rightarrow> stored (historyManager s) c)]))"
proof (intro conjI impI)
  show "getModelById m = Undefined \<longleftrightarrow>
      m \<notin> set (map fst AVAILABLE_MODELS) \<and> m \<notin> set objectPrototypeKeys"
    by (rule getModelById_Undefined_iff)
next
  assume "getModelById m = Undefined \<and> m \<noteq> []"
  then show "service_selectModel (Some m) taskDescription p =
          (Some (id' (selectModel (or_else taskDescription p))),
           [''Invalid model ID: '' @ m @ ''. Using auto-selection.''])"
    by (simp add: service_selectModel_unknown)
next
  show "service_selectModel None taskDescription p =
          (Some (id' (selectModel (or_else taskDescription p))), [])"
    by (rule service_selectModel_absent)
next
  assume u: "getModelById m = Undefined \<and> m \<noteq> []"
    and a: "ConsultArgs.model args = Some m \<and> (models args = None \<or> models args = Some [])"
  have "fst (service_selectModel (ConsultArgs.model args) (task_description args) (prompt args)) =
        fst (service_selectModel None (task_description args) (prompt args))"
    using u a by (simp add: service_selectModel_unknown service_selectModel_absent)
  then have "fst (consultSingle config apiClient now args s) =
         fst (consultSingle config apiClient now (args\<lparr>ConsultArgs.model := None\<rparr>) s)"
    by (rule consultSingle_same_selection)
  then show "fst (consult config apiClient now args s) =
             fst (consult config apiClient now (args\<lparr>ConsultArgs.model := None\<rparr>) s)"
    using a by (auto simp: consult_def)
next
  show "warnings (snd (snd (snd (snd (consultOne apiClient p cid (rs, tp, tc, tt, s) m))))) =
          warnings s"
    by (rule consultOne_warnings)
next
  assume "getModelById m = Undefined"
    and "cid \<noteq> None \<or> checkCache p (Some m) (cache s) = None"
  then show "apiCalls (snd (snd (snd (snd (consultOne apiClient p cid (rs, tp, tc, tt, s) m))))) =
               apiCalls s @
                 [(p, Some m, case cid of None \<Rightarrow> [] | Some c \<Rightarrow> stored (historyManager s) c)]"
    by (rule consultOne_unknown_call)
qed

theorem unknown_model_id_witness:
  "getModelById ''gpt-4'' = Undefined
   \<and> service_selectModel (Some ''gpt-4'') None ''budget'' =
       (Some ''x-ai/grok-code-fast-1'', [''Invalid model ID: gpt-4. Using auto-selection.''])
   \<and> fst (consult defaultConfig answeringClient 0
            ((request ''budget'')\<lparr>ConsultArgs.model := Some ''gpt-4''\<rparr>) newService) =
       fst (consult defaultConfig answeringClient 0 (request ''budget'') newService)
   \<and> apiCalls (snd (snd (snd (snd
         (consultOne answeringClient ''budget'' None ([], 0, 0, 0, newService) ''gpt-4''))))) =
       [(''budget'', Some ''gpt-4'', [])]"
proof -
  have u: "getModelById ''gpt-4'' = Undefined"
    by (simp add: getModelById_def AVAILABLE_MODELS_def objectPrototypeKeys_def)
  have ne: "''gpt-4'' \<noteq> []" by simp
  have sel: "id' (selectModel (or_else None ''budget'')) = ''x-ai/grok-code-fast-1''"
    by (simp add: or_else_def truthy_def selectModel_budget grok_code_fast_1_def)
  have args: "ConsultArgs.model ((request ''budget'')\<lparr>ConsultArgs.model := Some ''gpt-4''\<rparr>) =
      Some ''gpt-4''
    \<and> (models ((request ''budget'')\<lparr>ConsultArgs.model := Some ''gpt-4''\<rparr>) = None
       \<or> models ((request ''budget'')\<lparr>ConsultArgs.model := Some ''gpt-4''\<rparr>) = Some [])"
    by (simp add: request_def)
  have same: "(request ''budget'')\<lparr>ConsultArgs.model := Some ''gpt-4'', ConsultArgs.model := None\<rparr> =
      request ''budget''"
    by (simp add: request_def)
  have miss: "(None :: string option) \<noteq> None \<or>
      checkCache ''budget'' (Some ''gpt-4'') (cache newService) = None"
    by (simp add: checkCache_def newService_def)
  have calls: "apiCalls newService = []" by (simp add: newService_def)
  note T = unknown_model_id[where m = "''gpt-4''" and taskDescription = None
      and p = "''budget''"
      and args = "(request ''budget'')\<lparr>ConsultArgs.model := Some ''gpt-4''\<rparr>"
      and config = defaultConfig and apiClient = answeringClient and now = 0
      and s = newService and cid = None and rs = "[]" and tp = 0 and tc = 0 and tt = 0]
  have a: "service_selectModel (Some ''gpt-4'') None ''budget'' =
       (Some ''x-ai/grok-code-fast-1'', [''Invalid model ID: gpt-4. Using auto-selection.''])"
    using T u ne sel by simp
  have b: "fst (consult defaultConfig answeringClient 0
            ((request ''budget'')\<lparr>ConsultArgs.model := Some ''gpt-4''\<rparr>) newService) =
       fst (consult defaultConfig answeringClient 0 (request ''budget'') newService)"
  proof -
    have "fst (consult defaultConfig answeringClient 0
            ((request ''budget'')\<lparr>ConsultArgs.model := Some ''gpt-4''\<rparr>) newService) =
       fst (consult defaultConfig answeringClient 0
            ((request ''budget'')\<lparr>ConsultArgs.model := Some ''gpt-4'',
               ConsultArgs.model := None\<rparr>) newService)"
      using T u ne args by blast
    then show ?thesis by (simp only: same)
  qed
  have c: "apiCalls (snd (snd (snd (snd
         (consultOne answeringClient ''budget'' None ([], 0, 0, 0, newService) ''gpt-4''))))) =
       [(''budget'', Some ''gpt-4'', [])]"
    using T u miss calls by simp
  from u a b c show ?thesis by blast
qed

text \<open>
  Where C4 as written fails: a batch naming the unknown id "gpt-4". The one upstream
  call is made with "gpt-4" itself and no warning is written, although auto-selection from
  the prompt "budget" gives "x-ai/grok-code-fast-1".
\<close>

theorem unknown_model_id_in_batch_counterexample:
  "getModelById ''gpt-4'' = Undefined
   \<and> apiCalls (snd (consult defaultConfig answeringClient 0
        ((request ''budget'')\<lparr>models := Some [''gpt-4'']\<rparr>) newService)) =
      [(''budget'', Some ''gpt-4'', [])]
   \<and> warnings (snd (consult defaultConfig answeringClient 0
        ((request ''budget'')\<lparr>models := Some [''gpt-4'']\<rparr>) newService)) = []
   \<and> fst (service_selectModel None None ''budget'') = Some ''x-ai/grok-code-fast-1''"
proof -
  have u: "getModelById ''gpt-4'' = Undefined"
    by (simp add: getModelById_def AVAILABLE_MODELS_def objectPrototypeKeys_def)
  have one: "consultLoop answeringClient ''budget'' None [''gpt-4'']
       (newService\<lparr>rateLimiter := [''global'' \<mapsto> \<lparr>count = 1, resetTime = 60000\<rparr>]\<rparr>) =
     ([\<lparr>ModelResult.model = ''gpt-4'', ModelResult.response = ''ok'',
        ModelResult.usage =
          Some \<lparr>prompt_tokens = Some 5, completion_tokens = Some 7, total_tokens = None\<rparr>,
        cached = False\<rparr>], 5, 7, 0,
      newService\<lparr>rateLimiter := [''global'' \<mapsto> \<lparr>count = 1, resetTime = 60000\<rparr>],
        apiCalls := [(''budget'', Some ''gpt-4'', [])],
        cache := [generateCacheKey ''budget'' (Some ''gpt-4'') \<mapsto> answer (Some ''gpt-4'')]\<rparr>)"
    by (simp add: consultLoop_def consultOne_def collectResult_def u checkCache_def
        cacheResult_def newService_def answeringClient_def answer_def or0_def Let_def)
  have lim: "checkLimit 20 0 ''global'' Map.empty =
      (Inr (), [''global'' \<mapsto> \<lparr>count = 1, resetTime = 60000\<rparr>])"
    by (simp add: checkLimit_def windowMs_def)
  have run: "snd (consult defaultConfig answeringClient 0
        ((request ''budget'')\<lparr>models := Some [''gpt-4'']\<rparr>) newService) =
      newService\<lparr>rateLimiter := [''global'' \<mapsto> \<lparr>count = 1, resetTime = 60000\<rparr>],
        apiCalls := [(''budget'', Some ''gpt-4'', [])],
        cache := [generateCacheKey ''budget'' (Some ''gpt-4'') \<mapsto> answer (Some ''gpt-4'')]\<rparr>"
    using one lim
    by (simp add: consult_def consultMultipleModels_def request_def defaultConfig_def
        or_else_def truthy_def Let_def newService_def combineResponses_def)
  have auto: "fst (service_selectModel None None ''budget'') = Some ''x-ai/grok-code-fast-1''"
    by (simp add: service_selectModel_absent or_else_def truthy_def selectModel_budget
        grok_code_fast_1_def)
  show ?thesis
    using u auto by (simp add: run) (simp add: newService_def)
qed

lemma cached_label: "includes_str (xs @ '' (cached)'') ''(cached)''"
proof -
  have "sublist ''(cached)'' ((xs @ '' '') @ ''(cached)'' @ [])" by (rule sublist_appendI)
  then show ?thesis by (simp add: includes_str_sublist)
qed

lemma consult_single_dispatch:
  "models args = None \<or> models args = Some [] \<Longrightarrow>
   consult config apiClient now args s = consultSingle config apiClient now args s"
  by (auto simp: consult_def)

lemma consultSingle_cache_hit:
  assumes stateless: "truthy (ConsultArgs.conversation_id args) = None"
    and allowed: "checkLimit (rateLimitPerMinute config) now ''global'' (rateLimiter s) =
                    (Inr (), limits)"
    and sel: "service_selectModel (ConsultArgs.model args) (task_description args) (prompt args) =
                (selectedModel, ws)"
    and hit: "checkCache (prompt args) selectedModel (cache s) = Some cachedResult"
  shows "consultSingle config apiClient now args s =
     (Inr (cachedResult\<lparr>ConsultResult.model := show_model selectedModel @ '' (cached)''\<rparr>),
      s\<lparr>rateLimiter := limits, warnings := warnings s @ ws\<rparr>)"
  using assms by (simp add: consultSingle_def or_else_def Let_def)

text \<open>
  C5 (as the code has it). For a single-model request (no \<open>models\<close> list, or an empty
  one) without a conversation id that passes the rate-limit check, and whose key of
  resolved model and prompt prefix is in the cache: \<open>consult\<close> returns the cached result
  with its response text and usage, under the model label followed by " (cached)"; no
  upstream call is made, the histories and the cache are as before; the service differs
  only in the rate-limit window of "global" and in the warning that an unknown model id
  writes. The response that the tool handler builds from it, for a non-empty prompt, has
  its cache-hit flag set.
\<close>

theorem consult_cache_hit:
  assumes single: "models args = None \<or> models args = Some []"
    and stateless: "truthy (ConsultArgs.conversation_id args) = None"
    and allowed: "checkLimit (rateLimitPerMinute config) now ''global'' (rateLimiter s) =
                    (Inr (), limits)"
    and sel: "service_selectModel (ConsultArgs.model args) (task_description args) (prompt args) =
                (selectedModel, ws)"
    and hit: "checkCache (prompt args) selectedModel (cache s) = Some cachedResult"
  shows "consult config apiClient now args s =
       (Inr \<lparr>ConsultResult.model = show_model selectedModel @ '' (cached)'',
             ConsultResult.response = ConsultResult.response cachedResult,
             ConsultResult.usage = ConsultResult.usage cachedResult\<rparr>,
        s\<lparr>rateLimiter := limits, warnings := warnings s @ ws\<rparr>)
     \<and> apiCalls (snd (consult config apiClient now args s)) = apiCalls s
     \<and> historyManager (snd (consult config apiClient now args s)) = historyManager s
     \<and> cache (snd (consult config apiClient now args s)) = cache s
     \<and> (prompt args \<noteq> [] \<longrightarrow>
          fst (handleConsultAI config apiClient now args s) =
            Inr \<lparr>model_used = show_model selectedModel @ '' (cached)'',
                  ConsultResponse.response = ConsultResult.response cachedResult,
                  tokens_used = ConsultResult.usage cachedResult,
                  ConsultResponse.conversation_id = None,
                  ConsultResponse.cached = True\<rparr>)"
proof -
  have run: "consult config apiClient now args s =
     (Inr (cachedResult\<lparr>ConsultResult.model := show_model selectedModel @ '' (cached)''\<rparr>),
      s\<lparr>rateLimiter := limits, warnings := warnings s @ ws\<rparr>)"
    using consult_single_dispatch[OF single] consultSingle_cache_hit[OF stateless allowed sel hit]
    by simp
  have shape: "cachedResult\<lparr>ConsultResult.model := show_model selectedModel @ '' (cached)''\<rparr> =
      \<lparr>ConsultResult.model = show_model selectedModel @ '' (cached)'',
       ConsultResult.response = ConsultResult.response cachedResult,
       ConsultResult.usage = ConsultResult.usage cachedResult\<rparr>"
    by simp
  show ?thesis
    using run stateless cached_label[of "show_model selectedModel"]
    by (simp add: shape handleConsultAI_def)
qed

theorem consult_cache_hit_witness:
  "consult defaultConfig answeringClient 1000 (request ''budget'')
      (newService\<lparr>cache := [''x-ai/grok-code-fast-1:budget'' \<mapsto>
         answer (Some ''x-ai/grok-code-fast-1'')]\<rparr>) =
     (Inr \<lparr>ConsultResult.model = ''x-ai/grok-code-fast-1 (cached)'',
           ConsultResult.response = ''ok'',
           ConsultResult.usage =
             Some \<lparr>prompt_tokens = Some 5, completion_tokens = Some 7, total_tokens = None\<rparr>\<rparr>,
      newService\<lparr>cache := [''x-ai/grok-code-fast-1:budget'' \<mapsto>
           answer (Some ''x-ai/grok-code-fast-1'')],
         rateLimiter := [''global'' \<mapsto> \<lparr>count = 1, resetTime = 61000\<rparr>]\<rparr>)
   \<and> apiCalls (snd (consult defaultConfig answeringClient 1000 (request ''budget'')
        (newService\<lparr>cache := [''x-ai/grok-code-fast-1:budget'' \<mapsto>
           answer (Some ''x-ai/grok-code-fast-1'')]\<rparr>))) = []
   \<and> fst (handleConsultAI defaultConfig answeringClient 1000 (request ''budget'')
        (newService\<lparr>cache := [''x-ai/grok-code-fast-1:budget'' \<mapsto>
           answer (Some ''x-ai/grok-code-fast-1'')]\<rparr>)) =
       Inr \<lparr>model_used = ''x-ai/grok-code-fast-1 (cached)'',
             ConsultResponse.response = ''ok'',
             tokens_used =
               Some \<lparr>prompt_tokens = Some 5, completion_tokens = Some 7, total_tokens = None\<rparr>,
             ConsultResponse.conversation_id = None,
             ConsultResponse.cached = True\<rparr>"
proof -
  let ?s = "newService\<lparr>cache := [''x-ai/grok-code-fast-1:budget'' \<mapsto>
         answer (Some ''x-ai/grok-code-fast-1'')]\<rparr>"
  have single: "models (request ''budget'') = None \<or> models (request ''budget'') = Some []"
    by (simp add: request_def)
  have stateless: "truthy (ConsultArgs.conversation_id (request ''budget'')) = None"
    by (simp add: request_def truthy_def)
  have allowed: "checkLimit (rateLimitPerMinute defaultConfig) 1000 ''global'' (rateLimiter ?s) =
      (Inr (), [''global'' \<mapsto> \<lparr>count = 1, resetTime = 61000\<rparr>])"
    by (simp add: checkLimit_def defaultConfig_def newService_def windowMs_def)
  have sel: "service_selectModel (ConsultArgs.model (request ''budget''))
      (task_description (request ''budget'')) (prompt (request ''budget'')) =
      (Some ''x-ai/grok-code-fast-1'', [])"
    by (simp add: request_def service_selectModel_absent or_else_def truthy_def
        selectModel_budget grok_code_fast_1_def)
  have hit: "checkCache (prompt (request ''budget'')) (Some ''x-ai/grok-code-fast-1'') (cache ?s) =
      Some (answer (Some ''x-ai/grok-code-fast-1''))"
    by (simp add: checkCache_def generateCacheKey_def show_model_def request_def)
  have given: "prompt (request ''budget'') \<noteq> []"
    by (simp add: request_def)
  show ?thesis
    using given consult_cache_hit[OF single stateless allowed sel hit, of answeringClient]
    by (simp add: answer_def show_model_def newService_def)
qed

text \<open>
  Where C5 as written fails: the same stateless request with its key in the cache, when
  the window of "global" is full. \<open>consult\<close> fails with a \<open>RateLimitError\<close> and returns
  no cached result.
\<close>

theorem consult_cache_hit_rate_limited_counterexample:
  "truthy (ConsultArgs.conversation_id (request ''budget'')) = None
   \<and> checkCache (prompt (request ''budget''))
        (fst (service_selectModel (ConsultArgs.model (request ''budget''))
           (task_description (request ''budget'')) (prompt (request ''budget''))))
        (cache (newService\<lparr>cache := [''x-ai/grok-code-fast-1:budget'' \<mapsto>
             answer (Some ''x-ai/grok-code-fast-1'')],
           rateLimiter := [''global'' \<mapsto> \<lparr>count = 20, resetTime = 60000\<rparr>]\<rparr>)) =
      Some (answer (Some ''x-ai/grok-code-fast-1''))
   \<and> fst (consult defaultConfig answeringClient 1000 (request ''budget'')
        (newService\<lparr>cache := [''x-ai/grok-code-fast-1:budget'' \<mapsto>
             answer (Some ''x-ai/grok-code-fast-1'')],
           rateLimiter := [''global'' \<mapsto> \<lparr>count = 20, resetTime = 60000\<rparr>]\<rparr>)) =
      Inl (RateLimitError 59)"
proof -
  have sel: "service_selectModel None None ''budget'' = (Some ''x-ai/grok-code-fast-1'', [])"
    by (simp add: service_selectModel_absent or_else_def truthy_def
        selectModel_budget grok_code_fast_1_def)
  have lim: "checkLimit 20 1000 ''global'' [''global'' \<mapsto> \<lparr>count = 20, resetTime = 60000\<rparr>] =
      (Inl (RateLimitError 59), [''global'' \<mapsto> \<lparr>count = 20, resetTime = 60000\<rparr>])"
    by (simp add: checkLimit_def ceil_div_def)
  show ?thesis
    using lim
    by (simp add: sel consult_def consultSingle_def request_def defaultConfig_def
        newService_def or_else_def truthy_def checkCache_def generateCacheKey_def
        show_model_def)
qed














text \<open>
  The batch of the two models "gpt-5-codex" and "grok-code-fast-1" where the second
  upstream call is rejected, run in full: two sections, the second one an error, and
  totals that are the usage of the first model alone.
\<close>

lemma batch_with_failed_second_model:
  "fst (consult defaultConfig secondCallFails 0
         ((request ''hi'')\<lparr>models := Some [''gpt-5-codex'', ''grok-code-fast-1'']\<rparr>) newService) =
     Inr \<lparr>ConsultResult.model = ''Multi-model: gpt-5-codex, grok-code-fast-1'',
           ConsultResult.response =
             ''# Multi-Model Consultation Results\<newline>\<newline>''
             @ ''## Model 1: gpt-5-codex\<newline>\<newline>ok\<newline>\<newline>''
             @ ''**Tokens used:** 0\<newline>\<newline>---\<newline>\<newline>''
             @ ''## Model 2: grok-code-fast-1\<newline>\<newline>Error: API error: boom\<newline>\<newline>''
             @ ''**Tokens used:** 0\<newline>\<newline>---\<newline>\<newline>'',
           ConsultResult.usage =
             Some \<lparr>prompt_tokens = Some 5, completion_tokens = Some 7, total_tokens = Some 0\<rparr>\<rparr>"
proof -
  have codex: "getModelById ''gpt-5-codex'' = Own gpt_5_codex"
    by (simp add: getModelById_def AVAILABLE_MODELS_def)
  have grok: "getModelById ''grok-code-fast-1'' = Own grok_code_fast_1"
    by (simp add: getModelById_def AVAILABLE_MODELS_def)
  have lim: "checkLimit 20 0 ''global'' Map.empty =
      (Inr (), [''global'' \<mapsto> \<lparr>count = 1, resetTime = 60000\<rparr>])"
    by (simp add: checkLimit_def windowMs_def)
  have loop: "consultLoop secondCallFails ''hi'' None [''gpt-5-codex'', ''grok-code-fast-1'']
       (newService\<lparr>rateLimiter := [''global'' \<mapsto> \<lparr>count = 1, resetTime = 60000\<rparr>]\<rparr>) =
     ([\<lparr>ModelResult.model = ''gpt-5-codex'', ModelResult.response = ''ok'',
        ModelResult.usage =
          Some \<lparr>prompt_tokens = Some 5, completion_tokens = Some 7, total_tokens = None\<rparr>,
        ModelResult.cached = False\<rparr>,
       \<lparr>ModelResult.model = ''grok-code-fast-1'',
        ModelResult.response = ''Error: API error: boom'',
        ModelResult.usage =
          Some \<lparr>prompt_tokens = Some 0, completion_tokens = Some 0, total_tokens = Some 0\<rparr>,
        ModelResult.cached = False\<rparr>], 5, 7, 0,
      newService\<lparr>rateLimiter := [''global'' \<mapsto> \<lparr>count = 1, resetTime = 60000\<rparr>],
        apiCalls := [(''hi'', Some ''openai/gpt-5-codex'', []),
          (''hi'', Some ''x-ai/grok-code-fast-1'', [])],
        cache := [''openai/gpt-5-codex:hi'' \<mapsto> answer (Some ''openai/gpt-5-codex'')]\<rparr>)"
    by (simp add: consultLoop_def consultOne_def collectResult_def errorEntry_def codex grok
        checkCache_def cacheResult_def
        generateCacheKey_def show_model_def gpt_5_codex_def grok_code_fast_1_def
        newService_def secondCallFails_def answer_def or0_def Let_def)
  have d0: "show_nat 0 = ''0''" by (subst show_nat.simps) simp
  have d1: "show_nat (Suc 0) = ''1''" by (subst show_nat.simps) simp
  have d2: "show_nat (Suc (Suc 0)) = ''2''" by (subst show_nat.simps) simp
  have digits: "show_nat (Suc 0) = ''1''" "show_nat (Suc (Suc 0)) = ''2''" "show_int 0 = ''0''"
    using d0 d1 d2 by (simp_all add: show_int_def)
  show ?thesis
    using lim loop
    by (simp add: consult_def consultMultipleModels_def request_def defaultConfig_def
        or_else_def truthy_def Let_def combineResponses_def combineSections.simps digits or0_def
        intercalate_def newService_def)
qed

end
